theory Spec2Isabelle
  imports Complex_Main "HOL-Library.Word" "HOL-Library.Log_Nat"
begin

unbundle bit_operations_syntax

section \<open>Data model (device/coyote/types.py as used by device.py)\<close>

text \<open>
  Python integers are unbounded, so every integer attribute is an \<open>int\<close>.
  A Python float is the rational number it denotes. Wall-clock times are idealised: their
  sums and differences are exact. The arithmetic of the pulse generator is IEEE 754
  double arithmetic: every operation is rounded to the nearest double.
\<close>

datatype ConnectionStage =
  DISCONNECTED | SCANNING | CONNECTING | SERVICE_DISCOVERY | STATUS_SUBSCRIBE
  | SYNC_PARAMETERS | CONNECTED

record CoyoteStrengths =
  channel_a :: int
  channel_b :: int

record CoyotePulse =
  frequency :: int
  intensity :: int
  duration :: int

datatype CoyotePulses =
  CoyotePulses (pulses_channel_a: "CoyotePulse list") (pulses_channel_b: "CoyotePulse list")

text \<open>
  Strengths and pulse packets are plain objects: as a condition, an optional one is true
  exactly when it is not \<open>None\<close>.
\<close>

record CoyoteParams =
  channel_a_limit :: int
  channel_b_limit :: int
  channel_a_freq_balance :: int
  channel_b_freq_balance :: int
  channel_a_intensity_balance :: int
  channel_b_intensity_balance :: int

text \<open>
  The BLE link handle: the address it was created for and the \<open>is_connected\<close> property,
  which a successful \<open>connect()\<close> makes true.
\<close>

record BleakClient =
  client_address :: string
  is_connected :: bool

text \<open>The update algorithm is an opaque collaborator; only its presence is tested.\<close>

datatype CoyoteAlgorithm = CoyoteAlgorithm

text \<open>Exceptions raised by the Python code, as values.\<close>

datatype error = IndexError | ValueError

text \<open>
  Everything the device object does to the outside world, in order: Qt signal emissions,
  characteristic writes (the frame and whether the write succeeded), calls of the link's
  \<open>disconnect()\<close>, and writes of the persisted address setting.
\<close>

datatype event =
  PulseSent CoyotePulses
  | PowerLevelsChanged CoyoteStrengths
  | BatteryLevelChanged int
  | ConnectionStatusChanged bool ConnectionStage
  | GattWrite "int list" bool
  | ClientDisconnect
  | SettingsSet string

section \<open>Protocol constants (device/coyote/constants.py)\<close>

definition CMD_B0 :: int where
  \<comment> \<open>Modelled from the spec: constants.py is not among the sources; the power command
      frame starts with 0xB0.\<close>
  "CMD_B0 = 0xB0"

definition CMD_POWER_UPDATE :: int where
  \<comment> \<open>Modelled from the spec: constants.py is not among the sources; the first byte
      of a PowerUpdate notification (0xB1 in the peripheral's protocol).\<close>
  "CMD_POWER_UPDATE = 0xB1"

definition CMD_ACK :: int where
  \<comment> \<open>Modelled from the spec: constants.py is not among the sources; the first byte
      of an Ack notification.\<close>
  "CMD_ACK = 0x51"

definition CMD_ACTIVE_POWER :: int where
  \<comment> \<open>Modelled from the spec: constants.py is not among the sources; the first byte
      of an ActivePower notification (device.py calls it the 0x53 notification).\<close>
  "CMD_ACTIVE_POWER = 0x53"

definition INTERP_ABSOLUTE_SET :: int where
  \<comment> \<open>Modelled from the spec: constants.py is not among the sources; the two-bit
      channel mode ABSOLUTE_SET.\<close>
  "INTERP_ABSOLUTE_SET = 3"

definition INTERP_NO_CHANGE :: int where
  \<comment> \<open>Modelled from the spec: constants.py is not among the sources; the two-bit
      channel mode NO_CHANGE.\<close>
  "INTERP_NO_CHANGE = 0"

definition SEQUENCE_MODULO :: int where
  \<comment> \<open>Modelled from the spec: constants.py is not among the sources; the sequence
      number is a 4-bit counter, wrapping mod 16.\<close>
  "SEQUENCE_MODULO = 16"

definition PULSES_PER_PACKET :: nat where
  \<comment> \<open>Modelled from the spec: constants.py is not among the sources; the fixed number
      of pulses per channel in one packet.\<close>
  "PULSES_PER_PACKET = 4"

definition B0_NO_PULSES_PAD_BYTES :: nat where
  \<comment> \<open>Modelled from the spec: constants.py is not among the sources; the zero pad has
      the size of the pulse section, two bytes per pulse and channel.\<close>
  "B0_NO_PULSES_PAD_BYTES = 16"

section \<open>The device object (CoyoteDevice in device/coyote/device.py)\<close>

record device =
  device_name :: string
  client :: "BleakClient option"
  algorithm :: "CoyoteAlgorithm option"
  running :: bool
  connection_stage :: ConnectionStage
  strengths :: CoyoteStrengths
  battery_level :: int
  parameters :: CoyoteParams
  sequence_number :: int
  had_successful_connection :: bool
  shutdown :: bool
  force_disconnect :: bool
  last_device_address :: "string option"
  using_cached_address :: bool
  cached_connect_failure_count :: int
  cached_connect_failure_limit :: int
  skip_cached_reconnect_scans :: int
  next_scan_time :: rat
  scan_attempt_counter :: int
  last_scan_elapsed :: rat
  scan_failure_streak :: int
  connect_failure_streak :: int
  logged_first_send_payload :: bool
  first_active_power_seen :: bool
  last_battery_poll :: rat
  last_parameter_resend :: rat
  persisted_address :: string
  tx_count :: nat
  trace :: "event list"

text \<open>
  \<open>persisted_address\<close> is the value held by \<open>ui_settings.coyote_last_device_address\<close>,
  \<open>trace\<close> the events so far, and \<open>tx_count\<close> the number of characteristic writes
  attempted so far: the outcome of the \<open>n\<close>-th attempt is given by the link, a function
  \<open>nat \<Rightarrow> bool\<close> passed to every operation that writes.
\<close>

definition emit :: "event \<Rightarrow> device \<Rightarrow> device" where
  "emit e s = s\<lparr>trace := trace s @ [e]\<rparr>"

definition client_connected :: "device \<Rightarrow> bool" where
  \<comment> \<open>the negation of \<open>not self.client or not self.client.is_connected\<close>\<close>
  "client_connected s = (case client s of None \<Rightarrow> False | Some c \<Rightarrow> is_connected c)"

definition init :: "string \<Rightarrow> CoyoteParams \<Rightarrow> string \<Rightarrow> device" where
  \<comment> \<open>\<open>CoyoteDevice.__init__\<close>; the third argument is the address read from the settings,
      already stripped.\<close>
  "init name params persisted =
     \<lparr>device_name = name, client = None, algorithm = None, running = False,
      connection_stage = DISCONNECTED,
      strengths = \<lparr>channel_a = 0, channel_b = 0\<rparr>,
      battery_level = 100, parameters = params, sequence_number = 1,
      had_successful_connection = False, shutdown = False, force_disconnect = False,
      last_device_address = (if persisted = [] then None else Some persisted),
      using_cached_address = False, cached_connect_failure_count = 0,
      cached_connect_failure_limit = 3, skip_cached_reconnect_scans = 0,
      next_scan_time = 0, scan_attempt_counter = 0, last_scan_elapsed = 0,
      scan_failure_streak = 0, connect_failure_streak = 0,
      logged_first_send_payload = False, first_active_power_seen = False,
      last_battery_poll = 0, last_parameter_resend = 0,
      persisted_address = persisted, tx_count = 0, trace = []\<rparr>"

subsection \<open>Byte containers\<close>

definition getitem :: "8 word list \<Rightarrow> nat \<Rightarrow> error + int" where
  \<comment> \<open>\<open>data[i]\<close> on a bytearray, for a literal index \<open>i \<ge> 0\<close>\<close>
  "getitem data i = (if i < length data then Inr (uint (data ! i)) else Inl IndexError)"

definition bytearray :: "int list \<Rightarrow> error + int list" where
  \<comment> \<open>\<open>bytearray([..])\<close>, \<open>bytes([..])\<close> and \<open>bytearray.extend([..])\<close> raise ValueError
      on an element outside \<open>range(0, 256)\<close>\<close>
  "bytearray xs = (if list_all (\<lambda>x. 0 \<le> x \<and> x < 256) xs then Inr xs else Inl ValueError)"

subsection \<open>\<open>_handle_status_notification\<close>\<close>

definition handle_status_notification ::
  "device \<Rightarrow> 8 word list \<Rightarrow> (error + unit) \<times> device" where
  "handle_status_notification s data =
     (if data = [] then (Inr (), s)
      else
       (case getitem data 0 of Inl e \<Rightarrow> (Inl e, s) | Inr command_id \<Rightarrow>
       (case getitem data 1 of Inl e \<Rightarrow> (Inl e, s) | Inr seq \<Rightarrow>
       (case getitem data 2 of Inl e \<Rightarrow> (Inl e, s) | Inr power_a \<Rightarrow>
       (case getitem data 3 of Inl e \<Rightarrow> (Inl e, s) | Inr power_b \<Rightarrow>
          if command_id = CMD_POWER_UPDATE then
            (let s1 = s\<lparr>strengths := (strengths s)\<lparr>channel_a := power_a, channel_b := power_b\<rparr>\<rparr>
             in (Inr (), emit (PowerLevelsChanged (strengths s1)) s1))
          else if command_id = CMD_ACK then (Inr (), s)
          else if command_id = CMD_ACTIVE_POWER then
            (if length data < 4 then (Inr (), s)
             else if \<not> first_active_power_seen s
               then (Inr (), s\<lparr>first_active_power_seen := True\<rparr>)
               else (Inr (), s))
          else (Inr (), s))))))"

subsection \<open>\<open>send_command\<close>\<close>

definition interp_a :: "CoyoteStrengths option \<Rightarrow> int" where
  "interp_a st = (if st \<noteq> None then INTERP_ABSOLUTE_SET else INTERP_NO_CHANGE)"

definition interp_b :: "CoyoteStrengths option \<Rightarrow> int" where
  "interp_b st = (if st \<noteq> None then INTERP_ABSOLUTE_SET else INTERP_NO_CHANGE)"

definition control_byte :: "int \<Rightarrow> CoyoteStrengths option \<Rightarrow> int" where
  \<comment> \<open>\<open>((self.sequence_number if request_ack else 0) << 4) | (interp_a << 2) | interp_b\<close>
      with \<open>request_ack = strengths is not None\<close>\<close>
  "control_byte seqn st =
     push_bit 4 (if st \<noteq> None then seqn else 0) OR push_bit 2 (interp_a st) OR interp_b st"

definition invalid_intensity :: "CoyotePulse list \<Rightarrow> bool" where
  \<comment> \<open>\<open>any(p.intensity < 0 or p.intensity > 100 for p in ..)\<close>\<close>
  "invalid_intensity ps = list_ex (\<lambda>p. intensity p < 0 \<or> intensity p > 100) ps"

definition valid_pulses :: "CoyotePulses option \<Rightarrow> CoyotePulses option" where
  "valid_pulses pulses =
     (case pulses of None \<Rightarrow> None
      | Some p \<Rightarrow>
          if invalid_intensity (pulses_channel_a p) \<or> invalid_intensity (pulses_channel_b p)
          then None else Some p)"

definition pulse_bytes :: "CoyotePulses option \<Rightarrow> int list list" where
  \<comment> \<open>the lists handed to the successive \<open>command.extend\<close> calls\<close>
  "pulse_bytes vp =
     (case vp of
        Some p \<Rightarrow> [map duration (pulses_channel_a p), map intensity (pulses_channel_a p),
                   map duration (pulses_channel_b p), map intensity (pulses_channel_b p)]
      | None \<Rightarrow> [replicate B0_NO_PULSES_PAD_BYTES 0])"

fun bytearray_extend :: "int list \<Rightarrow> int list list \<Rightarrow> error + int list" where
  "bytearray_extend command [] = Inr command"
| "bytearray_extend command (xs # xss) =
     (case bytearray xs of Inl e \<Rightarrow> Inl e | Inr ys \<Rightarrow> bytearray_extend (command @ ys) xss)"

definition build_command ::
  "int \<Rightarrow> CoyoteStrengths option \<Rightarrow> CoyotePulses option \<Rightarrow> error + int list" where
  \<comment> \<open>the B0 packet built by \<open>send_command\<close> between its checks and its write loop\<close>
  "build_command seqn st pulses =
     (case bytearray [CMD_B0, control_byte seqn st,
                      (case st of Some x \<Rightarrow> channel_a x | None \<Rightarrow> 0),
                      (case st of Some x \<Rightarrow> channel_b x | None \<Rightarrow> 0)] of
        Inl e \<Rightarrow> Inl e
      | Inr command \<Rightarrow> bytearray_extend command (pulse_bytes (valid_pulses pulses)))"

fun write_retry :: "(nat \<Rightarrow> bool) \<Rightarrow> nat \<Rightarrow> int list \<Rightarrow> device \<Rightarrow> bool \<times> device" where
  \<comment> \<open>\<open>for attempt in range(max_retries)\<close>: the first successful write advances the
      sequence number and returns True\<close>
  "write_retry link 0 command s = (False, s)"
| "write_retry link (Suc n) command s =
     (let ok = link (tx_count s);
          s1 = emit (GattWrite command ok) (s\<lparr>tx_count := Suc (tx_count s)\<rparr>)
      in if ok
         then (True, s1\<lparr>sequence_number := (sequence_number s1 + 1) mod SEQUENCE_MODULO\<rparr>)
         else write_retry link n command s1)"

definition send_command ::
  "(nat \<Rightarrow> bool) \<Rightarrow> device \<Rightarrow> CoyoteStrengths option \<Rightarrow> CoyotePulses option
     \<Rightarrow> (error + bool) \<times> device" where
  "send_command link s st pulses =
     (let s1 = (case pulses of Some p \<Rightarrow> emit (PulseSent p) s | None \<Rightarrow> s)
      in if \<not> client_connected s1 then
           (Inr False,
            case st of
              Some x \<Rightarrow> s1\<lparr>strengths := (strengths s1)\<lparr>channel_a := channel_a x,
                                                       channel_b := channel_b x\<rparr>\<rparr>
            | None \<Rightarrow> s1)
         else if st = None \<and> pulses = None then (Inr False, s1)
         else case build_command (sequence_number s1) st pulses of
                Inl e \<Rightarrow> (Inl e, s1)
              | Inr command \<Rightarrow>
                  (let (ok, s2) = write_retry link 3 command (s1\<lparr>logged_first_send_payload := True\<rparr>)
                   in (Inr ok, s2)))"


subsection \<open>\<open>_disconnect_client\<close>, \<open>_recover_from_transient_failure\<close>, \<open>_remember_device_address\<close>\<close>

text \<open>
  What the connection loop sees of the outside world during one iteration: the outcome of
  every awaited BLE operation, the platform and the clock. \<open>None\<close> in an outcome is a
  raised exception.
\<close>

record BLEDevice =
  ble_name :: "string option"
  ble_address :: string

record AdvertisementData =
  local_name :: "string option"
  service_uuids :: "string list"

record BleakScanner =
  discovered_devices_and_advertisement_data :: "(BLEDevice \<times> AdvertisementData) list"
  discovered_devices :: "BLEDevice list"

datatype connect_outcome = ConnectOk | ConnectTimeout | ConnectError

record world =
  link :: "nat \<Rightarrow> bool"
  is_win :: bool
  now :: rat
  scan_elapsed :: rat
  scan_retry_seconds :: rat
  create_client :: "string \<Rightarrow> BleakClient option"
  find_device_by_filter :: "(BLEDevice \<times> AdvertisementData) list option"
  discover :: "BLEDevice list option"
  find_device_by_name :: "BLEDevice option option"
  refresh_scanner :: "BleakScanner option"
  backoff_scan_ok :: bool
  connect_result :: connect_outcome
  service_count :: "nat option"
  notify_ok :: bool
  battery_data :: "8 word list option"

text \<open>
  \<open>link\<close> answers the writes, \<open>is_win\<close> is \<open>sys.platform.startswith("win")\<close>, \<open>now\<close> is
  \<open>time.time()\<close> (one reading per iteration), \<open>scan_retry_seconds\<close> is the constant
  \<open>SCAN_RETRY_SECONDS\<close> of constants.py, \<open>find_device_by_filter\<close> lists the advertisements
  offered to the filter, \<open>notify_ok\<close> says that the services are loaded, the characteristic
  exists and \<open>start_notify\<close> succeeds.
\<close>

definition zero_pulses :: CoyotePulses where
  "zero_pulses =
     CoyotePulses (replicate PULSES_PER_PACKET \<lparr>frequency = 0, intensity = 0, duration = 0\<rparr>)
                  (replicate PULSES_PER_PACKET \<lparr>frequency = 0, intensity = 0, duration = 0\<rparr>)"

definition disconnect_client :: "(nat \<Rightarrow> bool) \<Rightarrow> device \<Rightarrow> device" where
  \<comment> \<open>both \<open>try\<close> blocks swallow every exception\<close>
  "disconnect_client lnk s =
     (let s3 = (case client s of
                  Some c \<Rightarrow>
                    (let s1 = s\<lparr>running := False\<rparr>;
                         s2 = snd (send_command lnk s1 None (Some zero_pulses))
                     in emit ClientDisconnect s2)
                | None \<Rightarrow> s)
      in s3\<lparr>client := None\<rparr>)"

definition recover_from_transient_failure :: "world \<Rightarrow> int \<Rightarrow> device \<Rightarrow> device" where
  "recover_from_transient_failure w extra_delay s =
     (let s1 = disconnect_client (link w) s;
          s2 = s1\<lparr>scan_attempt_counter := 0, connection_stage := SCANNING\<rparr>
      in if is_win w \<and> extra_delay > 0 then
           (if backoff_scan_ok w then s2
            else s2\<lparr>next_scan_time := now w + min 5 (1 + of_int extra_delay * 1)\<rparr>)
         else s2\<lparr>next_scan_time := now w + 1\<rparr>)"

definition truthy :: "string option \<Rightarrow> bool" where
  \<comment> \<open>the truth value of an \<open>Optional[str]\<close>\<close>
  "truthy a = (case a of None \<Rightarrow> False | Some x \<Rightarrow> x \<noteq> [])"

definition remember_device_address :: "string option \<Rightarrow> device \<Rightarrow> device" where
  "remember_device_address address s =
     emit (SettingsSet (case address of Some a \<Rightarrow> a | None \<Rightarrow> []))
       (s\<lparr>last_device_address := address,
          cached_connect_failure_count := 0,
          skip_cached_reconnect_scans := 0,
          persisted_address := (case address of Some a \<Rightarrow> a | None \<Rightarrow> [])\<rparr>)"

subsection \<open>\<open>start_updates\<close>, \<open>stop_updates\<close>, \<open>reset_connection\<close>, \<open>disconnect\<close>\<close>

definition start_updates :: "CoyoteAlgorithm option \<Rightarrow> device \<Rightarrow> device" where
  "start_updates alg s = s\<lparr>algorithm := alg, running := True\<rparr>"

definition stop_updates :: "device \<Rightarrow> device" where
  "stop_updates s = s\<lparr>running := False, algorithm := None\<rparr>"

definition reset_connection :: "device \<Rightarrow> device" where
  "reset_connection s = s\<lparr>scan_attempt_counter := 0, next_scan_time := 0, force_disconnect := True\<rparr>"

definition disconnect :: "(nat \<Rightarrow> bool) \<Rightarrow> device \<Rightarrow> device" where
  "disconnect lnk s =
     (disconnect_client lnk (s\<lparr>shutdown := True\<rparr>))\<lparr>connection_stage := DISCONNECTED\<rparr>"

subsection \<open>\<open>_read_battery_level\<close>, \<open>_send_parameters\<close>, \<open>_subscribe_to_notifications\<close>\<close>

definition read_battery_level :: "world \<Rightarrow> device \<Rightarrow> device" where
  "read_battery_level w s =
     (if \<not> client_connected s then s
      else case battery_data w of
             None \<Rightarrow> s
           | Some data \<Rightarrow>
               if data \<noteq> [] \<and> length data > 0
               then emit (BatteryLevelChanged (uint (hd data))) (s\<lparr>battery_level := uint (hd data)\<rparr>)
               else s)"

fun write_parameters :: "(nat \<Rightarrow> bool) \<Rightarrow> nat \<Rightarrow> int list \<Rightarrow> device \<Rightarrow> bool \<times> device" where
  \<comment> \<open>the retry loop of \<open>_send_parameters\<close>: the sequence number is not touched\<close>
  "write_parameters lnk 0 command s = (False, s)"
| "write_parameters lnk (Suc n) command s =
     (let ok = lnk (tx_count s);
          s1 = emit (GattWrite command ok) (s\<lparr>tx_count := Suc (tx_count s)\<rparr>)
      in if ok then (True, s1) else write_parameters lnk n command s1)"

definition send_parameters :: "(nat \<Rightarrow> bool) \<Rightarrow> device \<Rightarrow> (error + bool) \<times> device" where
  "send_parameters lnk s =
     (if \<not> client_connected s then (Inr False, s)
      else case bytearray [0xBF,
                           channel_a_limit (parameters s), channel_b_limit (parameters s),
                           channel_a_freq_balance (parameters s), channel_b_freq_balance (parameters s),
                           channel_a_intensity_balance (parameters s),
                           channel_b_intensity_balance (parameters s)] of
             Inl e \<Rightarrow> (Inl e, s)
           | Inr command \<Rightarrow>
               (let (ok, s1) = write_parameters lnk 3 command s in (Inr ok, s1)))"

definition subscribe_to_notifications :: "world \<Rightarrow> device \<Rightarrow> bool" where
  "subscribe_to_notifications w s = (if \<not> client_connected s then False else notify_ok w)"

subsection \<open>\<open>_scan_for_device\<close>\<close>

definition MAIN_SERVICE_UUID :: string where
  \<comment> \<open>Modelled from the spec: constants.py is not among the sources; the UUID of the
      peripheral's main GATT service.\<close>
  "MAIN_SERVICE_UUID = ''0000180C-0000-1000-8000-00805f9b34fb''"

definition lower_char :: "char \<Rightarrow> char" where
  "lower_char c = (let n = (of_char c :: nat) in if 65 \<le> n \<and> n \<le> 90 then char_of (n + 32) else c)"

definition lower :: "string \<Rightarrow> string" where
  \<comment> \<open>\<open>str.lower()\<close> on ASCII text\<close>
  "lower xs = map lower_char xs"

definition startswith :: "string \<Rightarrow> string \<Rightarrow> bool" where
  "startswith xs p = (take (length p) xs = p)"

definition target_prefix :: string where
  "target_prefix = ''47l121''"

definition target_service_uuids :: "string list" where
  "target_service_uuids = [lower MAIN_SERVICE_UUID, ''00001812-0000-1000-8000-00805f9b34fb'']"

definition is_target :: "device \<Rightarrow> BLEDevice \<Rightarrow> AdvertisementData option \<Rightarrow> bool" where
  "is_target s dev advertisement_data =
     (let target_name = lower (device_name s);
          dev_name = lower (case ble_name dev of Some n \<Rightarrow> n | None \<Rightarrow> [])
      in if dev_name = target_name \<or> startswith dev_name target_prefix then True
         else case advertisement_data of
                None \<Rightarrow> False
              | Some adv \<Rightarrow>
                  (let adv_name = lower (case local_name adv of Some n \<Rightarrow> n | None \<Rightarrow> [])
                   in if adv_name = target_name \<or> startswith adv_name target_prefix then True
                      else list_ex (\<lambda>u. lower u \<in> set target_service_uuids) (service_uuids adv)))"

definition finish :: "world \<Rightarrow> bool \<Rightarrow> device \<Rightarrow> bool \<times> device" where
  "finish w found s =
     (found, s\<lparr>last_scan_elapsed := scan_elapsed w,
               scan_failure_streak := (if found then 0 else scan_failure_streak s + 1)\<rparr>)"

text \<open>
  Each scan phase either returns from \<open>_scan_for_device\<close> (\<open>Inl\<close>, the returned value and
  the state) or falls through to the next phase (\<open>Inr\<close>, the state), also when an exception
  is caught.
\<close>

definition bind_fresh :: "world \<Rightarrow> BLEDevice \<Rightarrow> device \<Rightarrow> (bool \<times> device) + device" where
  \<comment> \<open>a matched device: remember its address, create the client, return True\<close>
  "bind_fresh w dev s =
     (let s1 = remember_device_address (Some (ble_address dev)) s
      in case create_client w (ble_address dev) of
           None \<Rightarrow> Inr s1
         | Some c \<Rightarrow> Inl (finish w True (s1\<lparr>client := Some c, using_cached_address := False\<rparr>)))"

definition try_cached :: "world \<Rightarrow> string \<Rightarrow> device \<Rightarrow> (bool \<times> device) + device" where
  "try_cached w address s =
     (case create_client w address of
        None \<Rightarrow> Inr (s\<lparr>using_cached_address := False\<rparr>)
      | Some c \<Rightarrow> Inl (finish w True (s\<lparr>client := Some c, using_cached_address := True\<rparr>)))"

definition try_deferred :: "world \<Rightarrow> string \<Rightarrow> device \<Rightarrow> (bool \<times> device) + device" where
  "try_deferred w deferred_cached_address s =
     (case create_client w deferred_cached_address of
        None \<Rightarrow> Inr s
      | Some c \<Rightarrow> Inl (finish w True (s\<lparr>client := Some c, using_cached_address := True\<rparr>)))"

definition filter_scan :: "world \<Rightarrow> device \<Rightarrow> (bool \<times> device) + device" where
  "filter_scan w s =
     (case find_device_by_filter w of
        None \<Rightarrow> Inr s
      | Some seen \<Rightarrow>
          (case find (\<lambda>(dev, adv). is_target s dev (Some adv)) seen of
             None \<Rightarrow> Inr s
           | Some (dev, adv) \<Rightarrow> bind_fresh w dev s))"

definition discover_scan :: "world \<Rightarrow> device \<Rightarrow> (bool \<times> device) + device" where
  "discover_scan w s =
     (case discover w of
        None \<Rightarrow> Inr s
      | Some devices \<Rightarrow>
          (case find (\<lambda>dev. is_target s dev None) devices of
             None \<Rightarrow> Inr s
           | Some dev \<Rightarrow> bind_fresh w dev s))"

definition name_scan :: "world \<Rightarrow> device \<Rightarrow> (bool \<times> device) + device" where
  "name_scan w s =
     (case find_device_by_name w of
        None \<Rightarrow> Inr s
      | Some None \<Rightarrow> Inr s
      | Some (Some dev) \<Rightarrow> bind_fresh w dev s)"

definition refresh_scan :: "world \<Rightarrow> device \<Rightarrow> (bool \<times> device) + device" where
  "refresh_scan w s =
     (case refresh_scanner w of
        None \<Rightarrow> Inr s
      | Some scanner \<Rightarrow>
          if discovered_devices_and_advertisement_data scanner \<noteq> [] then
            (case find (\<lambda>(dev, adv). is_target s dev (Some adv))
                    (discovered_devices_and_advertisement_data scanner) of
               None \<Rightarrow> Inr s
             | Some (dev, adv) \<Rightarrow> bind_fresh w dev s)
          else
            (case find (\<lambda>dev. is_target s dev None) (discovered_devices scanner) of
               None \<Rightarrow> Inr s
             | Some dev \<Rightarrow> bind_fresh w dev s))"

definition scan_for_device :: "world \<Rightarrow> device \<Rightarrow> bool \<times> device" where
  "scan_for_device w s =
     (let cached_ready = (truthy (last_device_address s) \<and> skip_cached_reconnect_scans s \<le> 0);
          deferring = (cached_ready \<and> is_win w \<and> scan_failure_streak s < 2);
          deferred_cached_address = (if deferring then last_device_address s else None);
          should_try_cached_address = (cached_ready \<and> \<not> deferring);
          s1 = (if \<not> cached_ready \<and> truthy (last_device_address s)
                     \<and> skip_cached_reconnect_scans s > 0
                then s\<lparr>skip_cached_reconnect_scans := skip_cached_reconnect_scans s - 1\<rparr>
                else s)
      in case (case last_device_address s of
                 Some a \<Rightarrow> if should_try_cached_address then try_cached w a s1 else Inr s1
               | None \<Rightarrow> Inr s1) of
           Inl r \<Rightarrow> r
         | Inr s2 \<Rightarrow>
       (case filter_scan w s2 of Inl r \<Rightarrow> r | Inr s3 \<Rightarrow>
       (case discover_scan w s3 of Inl r \<Rightarrow> r | Inr s4 \<Rightarrow>
       (case name_scan w s4 of Inl r \<Rightarrow> r | Inr s5 \<Rightarrow>
       (case (if is_win w \<and> scan_failure_streak s5 \<ge> 2 then refresh_scan w s5 else Inr s5) of
          Inl r \<Rightarrow> r
        | Inr s6 \<Rightarrow>
       (case (case deferred_cached_address of
                Some a \<Rightarrow> try_deferred w a s6
              | None \<Rightarrow> Inr s6) of
          Inl r \<Rightarrow> r
        | Inr s7 \<Rightarrow> finish w False s7))))))"


subsection \<open>\<open>_connection_loop\<close>\<close>

text \<open>
  One iteration of the \<open>while not self._shutdown\<close> loop. \<open>Continue\<close> is the \<open>continue\<close>
  statement, which skips the status signal at the end of the iteration; \<open>Raised\<close> is an
  exception that reaches the handler of the loop.
\<close>

datatype flow = Proceed | Continue | Raised error

definition connect_failed :: "world \<Rightarrow> device \<Rightarrow> device" where
  \<comment> \<open>the two \<open>except\<close> handlers of the CONNECTING stage, which differ in their log
      messages only\<close>
  "connect_failed w s =
     (let s1 = s\<lparr>connect_failure_streak := connect_failure_streak s + 1\<rparr>;
          s4 = (if using_cached_address s1 \<and> truthy (last_device_address s1) then
                  (let s2 = s1\<lparr>cached_connect_failure_count := cached_connect_failure_count s1 + 1\<rparr>;
                       s3 = s2\<lparr>skip_cached_reconnect_scans := max (skip_cached_reconnect_scans s2) 2\<rparr>
                   in (if cached_connect_failure_count s3 \<ge> cached_connect_failure_limit s3
                       then remember_device_address None s3 else s3)
                      \<lparr>using_cached_address := False\<rparr>)
                else s1);
          s5 = (if is_win w \<and> connect_failure_streak s4 \<ge> 2
                then s4\<lparr>scan_failure_streak := max (scan_failure_streak s4) 2\<rparr> else s4)
      in recover_from_transient_failure w (connect_failure_streak s5) s5)"

definition stage_scanning :: "world \<Rightarrow> device \<Rightarrow> flow \<times> device" where
  "stage_scanning w s =
     (if now w < next_scan_time s then (Continue, s)
      else case scan_for_device w s of
             (True, s1) \<Rightarrow>
               (Proceed, s1\<lparr>scan_attempt_counter := 0, next_scan_time := 0,
                            connection_stage := CONNECTING\<rparr>)
           | (False, s1) \<Rightarrow>
               (Proceed, s1\<lparr>scan_attempt_counter := scan_attempt_counter s1 + 1,
                            next_scan_time := now w + min 4 (max 2 (scan_retry_seconds w * (1/2)))\<rparr>))"

definition stage_connecting :: "world \<Rightarrow> device \<Rightarrow> flow \<times> device" where
  "stage_connecting w s =
     (case client s of
        None \<Rightarrow> (Continue, recover_from_transient_failure w 0 s)
      | Some c \<Rightarrow>
          (case connect_result w of
             ConnectOk \<Rightarrow>
               (Proceed, s\<lparr>client := Some (c\<lparr>is_connected := True\<rparr>),
                           cached_connect_failure_count := 0,
                           connect_failure_streak := 0,
                           using_cached_address := False,
                           connection_stage := SERVICE_DISCOVERY\<rparr>)
           | ConnectTimeout \<Rightarrow> (Proceed, connect_failed w s)
           | ConnectError \<Rightarrow> (Proceed, connect_failed w s)))"

definition send_initial_power_zero :: "(nat \<Rightarrow> bool) \<Rightarrow> device \<Rightarrow> (error + bool) \<times> device" where
  "send_initial_power_zero lnk s = send_command lnk s (Some \<lparr>channel_a = 0, channel_b = 0\<rparr>) None"

definition stage_service_discovery :: "world \<Rightarrow> device \<Rightarrow> flow \<times> device" where
  "stage_service_discovery w s =
     (if \<not> client_connected s then (Continue, recover_from_transient_failure w 0 s)
      else case service_count w of
             None \<Rightarrow> (Proceed, recover_from_transient_failure w 0 s)
           | Some n \<Rightarrow>
               if n > 0 then
                 (case send_initial_power_zero (link w) s of
                    (Inr True, s1) \<Rightarrow> (Proceed, s1\<lparr>connection_stage := STATUS_SUBSCRIBE\<rparr>)
                  | (Inr False, s1) \<Rightarrow> (Proceed, recover_from_transient_failure w 0 s1)
                  | (Inl e, s1) \<Rightarrow> (Proceed, recover_from_transient_failure w 0 s1))
               else (Proceed, recover_from_transient_failure w 0 s))"

definition stage_status_subscribe :: "world \<Rightarrow> device \<Rightarrow> flow \<times> device" where
  "stage_status_subscribe w s =
     (if subscribe_to_notifications w s
      then (Proceed, s\<lparr>connection_stage := SYNC_PARAMETERS\<rparr>)
      else (Proceed, recover_from_transient_failure w 0 s))"

definition stage_sync_parameters :: "world \<Rightarrow> device \<Rightarrow> flow \<times> device" where
  "stage_sync_parameters w s =
     (case send_parameters (link w) s of
        (Inl e, s1) \<Rightarrow> (Raised e, s1)
      | (Inr True, s1) \<Rightarrow>
          (Proceed, (read_battery_level w (s1\<lparr>had_successful_connection := True\<rparr>))
                      \<lparr>connection_stage := CONNECTED\<rparr>)
      | (Inr False, s1) \<Rightarrow> (Proceed, recover_from_transient_failure w 0 s1))"

definition stage_connected :: "world \<Rightarrow> device \<Rightarrow> flow \<times> device" where
  "stage_connected w s =
     (let s1 = (if now w - last_battery_poll s \<ge> 10
                then (read_battery_level w s)\<lparr>last_battery_poll := now w\<rparr> else s)
      in if now w - last_parameter_resend s1 \<ge> 5 then
           (case send_parameters (link w) s1 of
              (Inl e, s2) \<Rightarrow> (Raised e, s2)
            | (Inr ok, s2) \<Rightarrow> (Proceed, s2\<lparr>last_parameter_resend := now w\<rparr>))
         else (Proceed, s1))"

definition connection_loop_body :: "world \<Rightarrow> device \<times> ConnectionStage \<Rightarrow> device \<times> ConnectionStage" where
  "connection_loop_body w = (\<lambda>(s, prev_stage).
     if force_disconnect s then
       ((disconnect_client (link w) (s\<lparr>force_disconnect := False\<rparr>))
          \<lparr>scan_attempt_counter := 0, next_scan_time := 0,
           first_active_power_seen := False, connection_stage := DISCONNECTED\<rparr>, prev_stage)
     else if connection_stage s = CONNECTED \<and> \<not> client_connected s then
       ((disconnect_client (link w) s)
          \<lparr>first_active_power_seen := False, connection_stage := DISCONNECTED\<rparr>, prev_stage)
     else
       (case (case connection_stage s of
                DISCONNECTED \<Rightarrow> (Proceed, s\<lparr>connection_stage := SCANNING\<rparr>)
              | SCANNING \<Rightarrow> stage_scanning w s
              | CONNECTING \<Rightarrow> stage_connecting w s
              | SERVICE_DISCOVERY \<Rightarrow> stage_service_discovery w s
              | STATUS_SUBSCRIBE \<Rightarrow> stage_status_subscribe w s
              | SYNC_PARAMETERS \<Rightarrow> stage_sync_parameters w s
              | CONNECTED \<Rightarrow> stage_connected w s) of
          (Continue, s1) \<Rightarrow> (s1, prev_stage)
        | (Raised e, s1) \<Rightarrow> (recover_from_transient_failure w 0 s1, prev_stage)
        | (Proceed, s1) \<Rightarrow>
            if prev_stage \<noteq> connection_stage s1
            then (emit (ConnectionStatusChanged (connection_stage s1 = CONNECTED) (connection_stage s1)) s1,
                  connection_stage s1)
            else (s1, prev_stage)))"

fun connection_loop :: "world list \<Rightarrow> device \<times> ConnectionStage \<Rightarrow> device \<times> ConnectionStage" where
  \<comment> \<open>the iterations run while the given observations of the world last; the loop
      itself ends only when \<open>_shutdown\<close> is set\<close>
  "connection_loop [] x = x"
| "connection_loop (w # ws) x =
     (if shutdown (fst x) then x else connection_loop ws (connection_loop_body w x))"

subsection \<open>\<open>update_loop\<close>\<close>

record tick =
  tick_world :: world
  next_update_time :: rat
  generate_packet :: "CoyotePulses option option"

text \<open>
  One pass of \<open>while self.running\<close>: the world at that moment, the algorithm's
  \<open>next_update_time\<close> and what \<open>generate_packet\<close> returns (\<open>None\<close>: it raised). The
  result of \<open>update_loop\<close> is \<open>None\<close> while the loop has not returned after the given passes.
\<close>

definition update_loop_body :: "tick \<Rightarrow> rat \<times> device \<Rightarrow> rat \<times> device" where
  "update_loop_body t = (\<lambda>(last_battery_read, s).
     if algorithm s = None then (last_battery_read, s)
     else
       (let current_time = now (tick_world t);
            (last_battery_read1, s1) =
              (if current_time - last_battery_read \<ge> 5
               then (current_time, read_battery_level (tick_world t) s)
               else (last_battery_read, s))
        in if current_time \<ge> next_update_time t then
             (case generate_packet t of
                None \<Rightarrow> (last_battery_read1, s1)
              | Some None \<Rightarrow> (last_battery_read1, s1)
              | Some (Some pulses) \<Rightarrow>
                  (last_battery_read1, snd (send_command (link (tick_world t)) s1 None (Some pulses))))
           else (last_battery_read1, s1)))"

fun update_loop :: "tick list \<Rightarrow> rat \<times> device \<Rightarrow> device option" where
  "update_loop [] x = (if running (snd x) then None else Some (snd x))"
| "update_loop (t # ts) x =
     (if running (snd x) then update_loop ts (update_loop_body t x) else Some (snd x))"


section \<open>The pulse generator (device/coyote/pulse_generator.py)\<close>

definition MIN_PULSE_DURATION_MS :: int where
  \<comment> \<open>Modelled from the spec: constants.py is not among the sources; the lower end of
      the hardware envelope, which \<open>create_pulse\<close> documents as 5-240 ms.\<close>
  "MIN_PULSE_DURATION_MS = 5"

definition MAX_PULSE_DURATION_MS :: int where
  \<comment> \<open>Modelled from the spec: constants.py is not among the sources; the upper end of
      the hardware envelope, which \<open>create_pulse\<close> documents as 5-240 ms.\<close>
  "MAX_PULSE_DURATION_MS = 240"

definition clamp :: "rat \<Rightarrow> rat \<Rightarrow> rat \<Rightarrow> rat" where
  \<comment> \<open>Modelled from the spec: device/coyote/common.py is not among the sources;
      \<open>clamp(value, lo, hi)\<close> limits the value to the interval.\<close>
  "clamp v lo hi = max lo (min v hi)"

text \<open>
  Double arithmetic. A finite double is a rational; an operation on doubles yields the
  double nearest to the exact result, a tie going to the even mantissa. The exponent of
  a subnormal is the least normal one. Overflow to infinity is outside the model: the
  frequencies and durations here are far from the largest double.
\<close>

definition pow2 :: "int \<Rightarrow> rat" where
  "pow2 e = (if e \<ge> 0 then 2 ^ nat e else 1 / 2 ^ nat (- e))"

definition py_round :: "rat \<Rightarrow> int" where
  \<comment> \<open>Python's \<open>round(x)\<close>: to the nearest integer, a tie to the even one\<close>
  "py_round x =
     (let f = \<lfloor>x\<rfloor>; d = x - of_int f
      in if d < 1/2 then f else if d > 1/2 then f + 1 else if even f then f else f + 1)"

definition py_int :: "rat \<Rightarrow> int" where
  \<comment> \<open>Python's \<open>int(x)\<close> on a float: truncation towards zero\<close>
  "py_int x = (if x \<ge> 0 then \<lfloor>x\<rfloor> else \<lceil>x\<rceil>)"

definition float_exponent :: "rat \<Rightarrow> int" where
  \<comment> \<open>the \<open>e\<close> with \<open>2 ^ e \<le> |x| < 2 ^ (e + 1)\<close>, for \<open>x \<noteq> 0\<close>\<close>
  "float_exponent x =
     (let (p, q) = quotient_of x; e0 = bitlen \<bar>p\<bar> - bitlen q
      in if pow2 e0 \<le> \<bar>x\<bar> then e0 else e0 - 1)"

definition to_double :: "rat \<Rightarrow> rat" where
  \<comment> \<open>round to 53 significant bits, ties to even\<close>
  "to_double x =
     (if x = 0 then 0
      else (let e = max (float_exponent x) (- 1022); ulp = pow2 (e - 52)
            in of_int (py_round (x / ulp)) * ulp))"

definition float_add :: "rat \<Rightarrow> rat \<Rightarrow> rat" where
  "float_add a b = to_double (a + b)"

definition float_sub :: "rat \<Rightarrow> rat \<Rightarrow> rat" where
  "float_sub a b = to_double (a - b)"

definition float_mul :: "rat \<Rightarrow> rat \<Rightarrow> rat" where
  "float_mul a b = to_double (a * b)"

definition float_div :: "rat \<Rightarrow> rat \<Rightarrow> rat" where
  \<comment> \<open>the divisors of \<open>create_pulse\<close> are 100.0, a frequency of at least 1 and a duration
      of at least \<open>MIN_PULSE_DURATION_MS\<close>, never zero\<close>
  "float_div a b = to_double (a / b)"

text \<open>
  The frequency window and the values of an axis are doubles (an integer setting below
  2^53 is the same number).
  An axis is its \<open>interpolate\<close> method; \<open>WriteProtectedAxis\<close> is the class of a funscript
  axis, any other class is an internal spin box.
\<close>

datatype axis = WriteProtectedAxis (interpolate: "rat \<Rightarrow> rat") | DynamicSpinboxAxis (interpolate: "rat \<Rightarrow> rat")

record PulseGenerator =
  channel_pulse_frequency :: "axis option"
  params_pulse_frequency :: axis
  minimum_frequency :: rat
  maximum_frequency :: rat

record PulseDebug =
  sequence_index :: int
  raw_frequency_hz :: int
  normalised_frequency :: rat
  mapped_frequency_hz :: int
  frequency_limits :: "rat \<times> rat"
  base_duration_ms :: rat
  duration_limits :: "int \<times> int"
  jitter_fraction :: rat
  jitter_factor :: rat
  width_normalised :: rat
  texture_mode :: string
  texture_headroom_up_ms :: rat
  texture_headroom_down_ms :: rat
  texture_applied_ms :: rat
  desired_duration_ms :: rat
  residual_ms :: rat

definition create_pulse :: "PulseGenerator \<Rightarrow> rat \<Rightarrow> int \<Rightarrow> int \<Rightarrow> CoyotePulse \<times> PulseDebug" where
  "create_pulse g time_s intensity_in seq_index =
     (let using_funscript =
            (case channel_pulse_frequency g of Some (WriteProtectedAxis f) \<Rightarrow> True | _ \<Rightarrow> False);
          raw_value =
            (case channel_pulse_frequency g of
               Some ax \<Rightarrow> interpolate ax time_s
             | None \<Rightarrow> interpolate (params_pulse_frequency g) time_s);
          user_freq_min = minimum_frequency g;
          user_freq_max = maximum_frequency g;
          requested_frequency =
            (if using_funscript
             then (let normalized = float_div raw_value 100
                   in float_add user_freq_min
                        (float_mul normalized (float_sub user_freq_max user_freq_min)))
             else clamp raw_value user_freq_min user_freq_max);
          requested_frequency1 = max 1 requested_frequency;
          base_duration0 = float_div 1000 requested_frequency1;
          base_duration =
            clamp base_duration0 (of_int MIN_PULSE_DURATION_MS) (of_int MAX_PULSE_DURATION_MS);
          display_frequency = max 1 (py_round (float_div 1000 base_duration));
          final_intensity = py_int (clamp (of_int intensity_in) 0 100);
          debug =
            \<lparr>sequence_index = seq_index,
             raw_frequency_hz = display_frequency,
             normalised_frequency = 1,
             mapped_frequency_hz = display_frequency,
             frequency_limits = (user_freq_min, user_freq_max),
             base_duration_ms = base_duration,
             duration_limits = (MIN_PULSE_DURATION_MS, MAX_PULSE_DURATION_MS),
             jitter_fraction = 0, jitter_factor = 0, width_normalised = 0,
             texture_mode = ''none'',
             texture_headroom_up_ms = 0, texture_headroom_down_ms = 0, texture_applied_ms = 0,
             desired_duration_ms = base_duration, residual_ms = 0\<rparr>
      in (\<lparr>frequency = display_frequency, intensity = final_intensity,
           duration = py_int base_duration\<rparr>, debug))"


section \<open>Concrete inputs\<close>

definition example_params :: CoyoteParams where
  "example_params =
     \<lparr>channel_a_limit = 200, channel_b_limit = 200,
      channel_a_freq_balance = 160, channel_b_freq_balance = 160,
      channel_a_intensity_balance = 0, channel_b_intensity_balance = 0\<rparr>"

definition idle_device :: device where
  \<comment> \<open>a freshly constructed device with no persisted address\<close>
  "idle_device = init ''47L121000'' example_params []"

definition linked_device :: device where
  \<comment> \<open>the same device once the link is up\<close>
  "linked_device =
     idle_device\<lparr>client := Some \<lparr>client_address = ''C1:A9:D8:0B:5E:22'', is_connected = True\<rparr>,
                 connection_stage := CONNECTED\<rparr>"

definition always_ok :: "nat \<Rightarrow> bool" where
  \<comment> \<open>a link on which every write succeeds\<close>
  "always_ok n = True"

definition never_ok :: "nat \<Rightarrow> bool" where
  \<comment> \<open>a link on which every write fails\<close>
  "never_ok n = False"

definition strengths_in_range :: "CoyoteStrengths \<Rightarrow> bool" where
  \<comment> \<open>the invariant of the data model: both channels within 0..200\<close>
  "strengths_in_range x =
     (0 \<le> channel_a x \<and> channel_a x \<le> 200 \<and> 0 \<le> channel_b x \<and> channel_b x \<le> 200)"

definition byte_strengths :: "CoyoteStrengths option \<Rightarrow> bool" where
  \<comment> \<open>strengths that fit the two strength bytes of the frame\<close>
  "byte_strengths st =
     (case st of
        Some x \<Rightarrow> 0 \<le> channel_a x \<and> channel_a x < 256 \<and> 0 \<le> channel_b x \<and> channel_b x < 256
      | None \<Rightarrow> True)"

definition header :: "int \<Rightarrow> CoyoteStrengths option \<Rightarrow> int list" where
  \<comment> \<open>the first four bytes of the B0 frame\<close>
  "header seqn st =
     [CMD_B0, control_byte seqn st,
      (case st of Some x \<Rightarrow> channel_a x | None \<Rightarrow> 0),
      (case st of Some x \<Rightarrow> channel_b x | None \<Rightarrow> 0)]"

definition funscript_generator :: PulseGenerator where
  \<comment> \<open>a channel driven by a funscript axis that reads 50, with the window 10..100 Hz\<close>
  "funscript_generator =
     \<lparr>channel_pulse_frequency = Some (WriteProtectedAxis (\<lambda>t. 50)),
      params_pulse_frequency = DynamicSpinboxAxis (\<lambda>t. 50),
      minimum_frequency = 10, maximum_frequency = 100\<rparr>"

definition low_window_generator :: PulseGenerator where
  \<comment> \<open>the same axis with the window 5..50 Hz\<close>
  "low_window_generator =
     \<lparr>channel_pulse_frequency = Some (WriteProtectedAxis (\<lambda>t. 50)),
      params_pulse_frequency = DynamicSpinboxAxis (\<lambda>t. 50),
      minimum_frequency = 5, maximum_frequency = 50\<rparr>"

definition invalid_packet :: CoyotePulses where
  \<comment> \<open>a packet whose second channel-A pulse has intensity 101\<close>
  "invalid_packet =
     CoyotePulses [\<lparr>frequency = 100, intensity = 50, duration = 10\<rparr>,
                   \<lparr>frequency = 100, intensity = 101, duration = 10\<rparr>,
                   \<lparr>frequency = 100, intensity = 50, duration = 10\<rparr>,
                   \<lparr>frequency = 100, intensity = 50, duration = 10\<rparr>]
                  [\<lparr>frequency = 50, intensity = 30, duration = 20\<rparr>,
                   \<lparr>frequency = 50, intensity = 30, duration = 20\<rparr>,
                   \<lparr>frequency = 50, intensity = 30, duration = 20\<rparr>,
                   \<lparr>frequency = 50, intensity = 30, duration = 20\<rparr>]"

definition valid_packet :: CoyotePulses where
  "valid_packet =
     CoyotePulses [\<lparr>frequency = 100, intensity = 50, duration = 10\<rparr>,
                   \<lparr>frequency = 100, intensity = 60, duration = 11\<rparr>,
                   \<lparr>frequency = 100, intensity = 70, duration = 12\<rparr>,
                   \<lparr>frequency = 100, intensity = 80, duration = 13\<rparr>]
                  [\<lparr>frequency = 50, intensity = 30, duration = 20\<rparr>,
                   \<lparr>frequency = 50, intensity = 31, duration = 21\<rparr>,
                   \<lparr>frequency = 50, intensity = 32, duration = 22\<rparr>,
                   \<lparr>frequency = 50, intensity = 33, duration = 23\<rparr>]"

definition pulse_section :: "CoyotePulses \<Rightarrow> int list" where
  \<comment> \<open>the layout of a valid packet after the header\<close>
  "pulse_section p =
     map duration (pulses_channel_a p) @ map intensity (pulses_channel_a p)
     @ map duration (pulses_channel_b p) @ map intensity (pulses_channel_b p)"

definition byte_durations :: "CoyotePulses \<Rightarrow> bool" where
  \<comment> \<open>durations that fit a byte each\<close>
  "byte_durations p =
     list_all (\<lambda>q. 0 \<le> duration q \<and> duration q < 256) (pulses_channel_a p @ pulses_channel_b p)"

definition has_invalid_intensity :: "CoyotePulses \<Rightarrow> bool" where
  \<comment> \<open>\<open>invalid_a or invalid_b\<close>\<close>
  "has_invalid_intensity p =
     (invalid_intensity (pulses_channel_a p) \<or> invalid_intensity (pulses_channel_b p))"

section \<open>Observations and predicates used in the statements\<close>

text \<open>The values written to the persisted address setting, in order.\<close>

fun settings_writes :: "event list \<Rightarrow> string list" where
  "settings_writes [] = []"
| "settings_writes (SettingsSet a # es) = a # settings_writes es"
| "settings_writes (e # es) = settings_writes es"

text \<open>The state a scan phase leaves, whether it returned or fell through.\<close>

definition outcome_state :: "(bool \<times> device) + device \<Rightarrow> device" where
  "outcome_state r = (case r of Inl (b, s) \<Rightarrow> s | Inr s \<Rightarrow> s)"

text \<open>
  A connect attempt that fails: the loop is in CONNECTING with a client, no forced
  disconnect is pending and \<open>connect()\<close> times out or raises.
\<close>

definition connecting_fails :: "world \<Rightarrow> device \<Rightarrow> bool" where
  "connecting_fails w s =
     (connection_stage s = CONNECTING \<and> \<not> force_disconnect s \<and> client s \<noteq> None
      \<and> connect_result w \<noteq> ConnectOk)"

text \<open>
  The failing attempt used the cached address; and the next failing attempt happens on
  the cached path again, with the cache bookkeeping as the previous failure left it.
\<close>

definition on_cached_path :: "device \<Rightarrow> bool" where
  "on_cached_path s = (using_cached_address s \<and> truthy (last_device_address s))"

definition resumes_cached :: "device \<Rightarrow> device \<Rightarrow> bool" where
  "resumes_cached t s =
     (using_cached_address s
      \<and> last_device_address s = last_device_address t
      \<and> cached_connect_failure_count s = cached_connect_failure_count t
      \<and> cached_connect_failure_limit s = cached_connect_failure_limit t
      \<and> settings_writes (trace s) = settings_writes (trace t))"

text \<open>A state that, if it is in SCANNING, has the scan retry counter reset and no client.\<close>

definition rescan_ready :: "device \<Rightarrow> bool" where
  "rescan_ready x = (connection_stage x = SCANNING \<longrightarrow> scan_attempt_counter x = 0 \<and> client x = None)"

section \<open>Concrete worlds and runs\<close>

text \<open>
  A world in which the peripheral is out of reach: every scan misses, every connect
  times out and every write fails. A device that remembers an address, and the clock
  readings of a run in which it tries that address three times.
\<close>

definition quiet_world :: "rat \<Rightarrow> world" where
  "quiet_world t =
     \<lparr>link = never_ok, is_win = False, now = t, scan_elapsed = 15, scan_retry_seconds = 5,
      create_client = (\<lambda>a. Some \<lparr>client_address = a, is_connected = False\<rparr>),
      find_device_by_filter = Some [], discover = Some [], find_device_by_name = Some None,
      refresh_scanner = None, backoff_scan_ok = True, connect_result = ConnectTimeout,
      service_count = Some 0, notify_ok = False, battery_data = None\<rparr>"

definition syncing_device :: device where
  "syncing_device =
     snd (handle_status_notification (linked_device\<lparr>connection_stage := SYNC_PARAMETERS\<rparr>)
            [0x53, 0x00, 0x00, 0x00])"

definition cached_device :: device where
  "cached_device = init ''47L121000'' example_params ''C1:A9:D8:0B:5E:22''"

definition retry_worlds :: "world list" where
  "retry_worlds = map quiet_world [100, 100, 100, 102, 105, 108, 108, 110, 113, 116, 116]"

definition retry_state :: "nat \<Rightarrow> device \<times> ConnectionStage" where
  "retry_state n = connection_loop (take n retry_worlds) (cached_device, DISCONNECTED)"

definition found_world :: "rat \<Rightarrow> world" where
  "found_world t =
     \<lparr>link = always_ok, is_win = False, now = t, scan_elapsed = 2, scan_retry_seconds = 5,
      create_client = (\<lambda>a. Some \<lparr>client_address = a, is_connected = False\<rparr>),
      find_device_by_filter =
        Some [(\<lparr>ble_name = Some ''47L121000'', ble_address = ''C1:A9:D8:0B:5E:22''\<rparr>,
               \<lparr>local_name = Some ''47L121000'', service_uuids = []\<rparr>)],
      discover = Some [], find_device_by_name = Some None,
      refresh_scanner = None, backoff_scan_ok = True, connect_result = ConnectOk,
      service_count = Some 3, notify_ok = True, battery_data = Some [87]\<rparr>"

definition running_device :: device where
  "running_device = start_updates (Some CoyoteAlgorithm) linked_device"

definition recovered_device :: device where
  "recovered_device = recover_from_transient_failure (quiet_world 100) 0 running_device"

definition reconnected_device :: device where
  "reconnected_device =
     fst (connection_loop (map found_world [102, 102, 102, 102, 102]) (recovered_device, SCANNING))"

definition due_tick :: tick where
  "due_tick = \<lparr>tick_world = found_world 103, next_update_time = 0,
               generate_packet = Some (Some valid_packet)\<rparr>"

section \<open>Lemmas on the write loop and the frame\<close>

lemma write_retry_sequence_number:
  "sequence_number (snd (write_retry lnk n c s)) =
     (if fst (write_retry lnk n c s) then (sequence_number s + 1) mod SEQUENCE_MODULO
      else sequence_number s)"
  by (induction n arbitrary: s) (simp_all add: Let_def emit_def)

lemma write_retry_strengths: "strengths (snd (write_retry lnk n c s)) = strengths s"
  by (induction n arbitrary: s) (simp_all add: Let_def emit_def)

lemma write_retry_client: "client (snd (write_retry lnk n c s)) = client s"
  by (induction n arbitrary: s) (simp_all add: Let_def emit_def)

lemma write_retry_running: "running (snd (write_retry lnk n c s)) = running s"
  by (induction n arbitrary: s) (simp_all add: Let_def emit_def)

lemma write_retry_succeeds: "fst (write_retry lnk n c s) = (\<exists>i<n. lnk (tx_count s + i))"
proof (induction n arbitrary: s)
  case 0
  then show ?case by simp
next
  case (Suc n)
  show ?case
  proof (cases "lnk (tx_count s)")
    case True
    then show ?thesis by (auto simp: Let_def intro: exI[of _ 0])
  next
    case False
    have "(\<exists>i<Suc n. lnk (tx_count s + i)) = (\<exists>i<n. lnk (Suc (tx_count s) + i))"
      using False by (auto simp: less_Suc_eq_0_disj)
    with False show ?thesis by (simp add: Let_def Suc emit_def)
  qed
qed

lemma write_retry_trace:
  "\<exists>outs. length outs \<le> n \<and> (0 < n \<longrightarrow> outs \<noteq> []) \<and>
      trace (snd (write_retry lnk n c s)) = trace s @ map (GattWrite c) outs"
proof (induction n arbitrary: s)
  case 0
  then show ?case by simp
next
  case (Suc n)
  let ?s1 = "emit (GattWrite c (lnk (tx_count s))) (s\<lparr>tx_count := Suc (tx_count s)\<rparr>)"
  show ?case
  proof (cases "lnk (tx_count s)")
    case True
    then have "trace (snd (write_retry lnk (Suc n) c s)) = trace s @ map (GattWrite c) [True]"
      by (simp add: Let_def emit_def)
    then show ?thesis by (intro exI[of _ "[True]"]) simp
  next
    case False
    from Suc.IH[of ?s1] obtain outs where o: "length outs \<le> n"
      "trace (snd (write_retry lnk n c ?s1)) = trace ?s1 @ map (GattWrite c) outs" by blast
    from False o have "trace (snd (write_retry lnk (Suc n) c s)) =
        trace s @ map (GattWrite c) (False # outs)"
      by (simp add: Let_def emit_def)
    with o(1) show ?thesis by (intro exI[of _ "False # outs"]) simp
  qed
qed

lemma control_byte_some: "control_byte seqn (Some x) = push_bit 4 seqn OR 15"
  by (simp add: control_byte_def interp_a_def interp_b_def INTERP_ABSOLUTE_SET_def or.assoc)

lemma control_byte_none: "control_byte seqn None = 0"
  by (simp add: control_byte_def interp_a_def interp_b_def INTERP_NO_CHANGE_def)

lemma control_byte_range:
  assumes "0 \<le> seqn" "seqn < 16"
  shows "0 \<le> control_byte seqn st \<and> control_byte seqn st < 256"
proof (cases st)
  case None
  then show ?thesis by (simp add: control_byte_none)
next
  case (Some x)
  have "push_bit 4 seqn < 2 ^ 8" using assms by (simp add: push_bit_eq_mult)
  moreover have "0 \<le> push_bit 4 seqn" using assms by simp
  ultimately have "push_bit 4 seqn OR 15 < 2 ^ 8" by (intro OR_upper) simp_all
  moreover have "0 \<le> push_bit 4 seqn OR 15" using assms by simp
  ultimately show ?thesis using Some by (simp add: control_byte_some)
qed

lemma control_byte_upper_nibble:
  "drop_bit 4 (control_byte seqn st) = (if st \<noteq> None then seqn else 0)"
  by (cases st) (simp_all add: control_byte_some control_byte_none drop_bit_push_bit)

lemma control_byte_modes:
  "take_bit 2 (drop_bit 2 (control_byte seqn st)) = interp_a st
   \<and> take_bit 2 (control_byte seqn st) = interp_b st
   \<and> interp_a st = interp_b st
   \<and> interp_a st = (if st \<noteq> None then INTERP_ABSOLUTE_SET else INTERP_NO_CHANGE)"
proof (cases st)
  case None
  then show ?thesis
    by (simp add: control_byte_none interp_a_def interp_b_def INTERP_NO_CHANGE_def)
next
  case (Some x)
  have a: "take_bit 2 (drop_bit 2 (push_bit 4 seqn OR 15)) = (3::int)"
    by (simp add: drop_bit_push_bit take_bit_push_bit)
  have b: "take_bit 2 (push_bit 4 seqn OR 15) = (3::int)"
    by (simp add: take_bit_push_bit)
  from Some a b show ?thesis
    by (simp add: control_byte_some interp_a_def interp_b_def INTERP_ABSOLUTE_SET_def)
qed

lemma bytearray_ok: "list_all (\<lambda>x. 0 \<le> x \<and> x < 256) xs \<Longrightarrow> bytearray xs = Inr xs"
  by (simp add: bytearray_def)

lemma header_ok:
  assumes "0 \<le> seqn" "seqn < 16" "byte_strengths st"
  shows "bytearray (header seqn st) = Inr (header seqn st)"
  using assms(3) control_byte_range[OF assms(1,2), of st]
  by (intro bytearray_ok) (simp add: header_def byte_strengths_def CMD_B0_def split: option.splits)

lemma build_command_invalid:
  assumes "invalid_intensity (pulses_channel_a p) \<or> invalid_intensity (pulses_channel_b p)"
  shows "build_command seqn st (Some p) = build_command seqn st None"
proof -
  have "valid_pulses (Some p) = valid_pulses None"
    using assms by (simp add: valid_pulses_def)
  then show ?thesis by (simp only: build_command_def)
qed

lemma build_command_pad:
  assumes "0 \<le> seqn" "seqn < 16" "byte_strengths st"
  shows "build_command seqn st None = Inr (header seqn st @ replicate B0_NO_PULSES_PAD_BYTES 0)"
proof -
  have "build_command seqn st None =
          (case bytearray (header seqn st) of
             Inl e \<Rightarrow> Inl e
           | Inr command \<Rightarrow> bytearray_extend command (pulse_bytes (valid_pulses None)))"
    by (simp only: build_command_def header_def)
  moreover have "bytearray (replicate B0_NO_PULSES_PAD_BYTES 0) = Inr (replicate B0_NO_PULSES_PAD_BYTES 0)"
    by (simp add: bytearray_def list_all_iff)
  ultimately show ?thesis
    by (simp add: header_ok[OF assms] valid_pulses_def pulse_bytes_def)
qed

lemma build_command_valid:
  assumes "0 \<le> seqn" "seqn < 16" "byte_strengths st"
    and "\<not> invalid_intensity (pulses_channel_a p)" "\<not> invalid_intensity (pulses_channel_b p)"
    and "list_all (\<lambda>q. 0 \<le> duration q \<and> duration q < 256) (pulses_channel_a p @ pulses_channel_b p)"
  shows "build_command seqn st (Some p) =
     Inr (header seqn st
          @ map duration (pulses_channel_a p) @ map intensity (pulses_channel_a p)
          @ map duration (pulses_channel_b p) @ map intensity (pulses_channel_b p))"
proof -
  have i: "list_all (\<lambda>x. 0 \<le> x \<and> x < 256) (map intensity (pulses_channel_a p))"
          "list_all (\<lambda>x. 0 \<le> x \<and> x < 256) (map intensity (pulses_channel_b p))"
    using assms(4,5) by (auto simp: invalid_intensity_def list_all_iff list_ex_iff)
  have d: "list_all (\<lambda>x. 0 \<le> x \<and> x < 256) (map duration (pulses_channel_a p))"
          "list_all (\<lambda>x. 0 \<le> x \<and> x < 256) (map duration (pulses_channel_b p))"
    using assms(6) by (auto simp: list_all_iff)
  have "build_command seqn st (Some p) =
          (case bytearray (header seqn st) of
             Inl e \<Rightarrow> Inl e
           | Inr command \<Rightarrow> bytearray_extend command (pulse_bytes (valid_pulses (Some p))))"
    by (simp only: build_command_def header_def)
  then show ?thesis
    using assms(4,5)
    by (simp add: header_ok[OF assms(1-3)] valid_pulses_def pulse_bytes_def bytearray_ok i d)
qed

section \<open>Lemmas on \<open>send_command\<close>\<close>

lemma send_command_client: "client (snd (send_command lnk s st pulses)) = client s"
  by (simp add: send_command_def Let_def emit_def case_prod_beta write_retry_client
        client_connected_def split: option.splits sum.splits)

lemma send_command_running: "running (snd (send_command lnk s st pulses)) = running s"
  by (simp add: send_command_def Let_def emit_def case_prod_beta write_retry_running
        client_connected_def split: option.splits sum.splits)

lemma send_command_strengths_connected:
  "client_connected s \<Longrightarrow> strengths (snd (send_command lnk s st pulses)) = strengths s"
  by (simp add: send_command_def Let_def emit_def case_prod_beta write_retry_strengths
        client_connected_def split: option.splits sum.splits)

lemma send_command_strengths_offline:
  "\<not> client_connected s \<Longrightarrow>
     strengths (snd (send_command lnk s st pulses)) =
       (case st of Some x \<Rightarrow> x | None \<Rightarrow> strengths s)"
  by (simp add: send_command_def Let_def emit_def client_connected_def split: option.splits)

lemma send_command_sequence_number:
  "sequence_number (snd (send_command lnk s st pulses)) =
     (if fst (send_command lnk s st pulses) = Inr True
      then (sequence_number s + 1) mod SEQUENCE_MODULO else sequence_number s)"
  by (simp add: send_command_def Let_def emit_def write_retry_sequence_number case_prod_beta
        split: option.splits sum.splits)

lemma send_command_result:
  "(fst (send_command lnk s st pulses) = Inr True) =
     (client_connected s \<and> (st \<noteq> None \<or> pulses \<noteq> None)
      \<and> (\<exists>command. build_command (sequence_number s) st pulses = Inr command)
      \<and> (\<exists>i<3. lnk (tx_count s + i)))"
  by (simp add: send_command_def Let_def emit_def write_retry_succeeds case_prod_beta
        client_connected_def split: option.splits sum.splits)

lemma send_command_writes:
  assumes "client_connected s" "build_command (sequence_number s) st (Some p) = Inr command"
  shows "\<exists>outs. outs \<noteq> [] \<and>
      trace (snd (send_command lnk s st (Some p))) =
        trace s @ PulseSent p # map (GattWrite command) outs"
proof -
  let ?s1 = "emit (PulseSent p) s"
  have c: "client_connected ?s1"
    using assms(1) by (simp add: client_connected_def emit_def)
  have b: "build_command (sequence_number ?s1) st (Some p) = Inr command"
    using assms(2) by (simp add: emit_def)
  obtain outs where "outs \<noteq> []"
     "trace (snd (write_retry lnk 3 command (?s1\<lparr>logged_first_send_payload := True\<rparr>)))
          = trace (?s1\<lparr>logged_first_send_payload := True\<rparr>) @ map (GattWrite command) outs"
    using write_retry_trace[of 3 lnk command "?s1\<lparr>logged_first_send_payload := True\<rparr>"] by auto
  then show ?thesis using c b
    by (intro exI[of _ outs]) (simp add: send_command_def Let_def case_prod_beta, simp add: emit_def)
qed


lemma repeated_sends_sequence_number:
  assumes "client_connected s" "0 \<le> sequence_number s" "sequence_number s < 16"
  shows "client_connected (((\<lambda>s. snd (send_command always_ok s None (Some zero_pulses))) ^^ n) s)
     \<and> sequence_number (((\<lambda>s. snd (send_command always_ok s None (Some zero_pulses))) ^^ n) s)
        = (sequence_number s + int n) mod 16"
proof (induction n)
  case 0
  then show ?case using assms by simp
next
  case (Suc n)
  let ?t = "((\<lambda>s. snd (send_command always_ok s None (Some zero_pulses))) ^^ n) s"
  have c: "client_connected ?t" and q: "sequence_number ?t = (sequence_number s + int n) mod 16"
    using Suc by simp_all
  have q0: "0 \<le> sequence_number ?t" "sequence_number ?t < 16" unfolding q by simp_all
  have bs: "byte_strengths None" by (simp add: byte_strengths_def)
  have v: "\<exists>command. build_command (sequence_number ?t) None (Some zero_pulses) = Inr command"
    by (subst build_command_valid[OF q0 bs])
       (simp_all add: zero_pulses_def invalid_intensity_def PULSES_PER_PACKET_def list_ex_iff list_all_iff)
  have r: "fst (send_command always_ok ?t None (Some zero_pulses)) = Inr True"
    using c v by (auto simp add: send_command_result always_ok_def intro: exI[of _ 0])
  have "sequence_number (snd (send_command always_ok ?t None (Some zero_pulses)))
      = (sequence_number ?t + 1) mod 16"
    using r by (simp add: send_command_sequence_number SEQUENCE_MODULO_def)
  also have "\<dots> = (sequence_number s + int (Suc n)) mod 16"
    unfolding q by (simp add: mod_simps algebra_simps)
  finally have "sequence_number (snd (send_command always_ok ?t None (Some zero_pulses)))
      = (sequence_number s + int (Suc n)) mod 16" .
  moreover have "client_connected (snd (send_command always_ok ?t None (Some zero_pulses)))"
    using c by (simp add: client_connected_def send_command_client)
  ultimately show ?case by simp
qed

section \<open>Status notifications\<close>

text \<open>
  Every non-empty notification shorter than four bytes makes the handler raise: it reads
  \<open>data[1]\<close>, \<open>data[2]\<close> and \<open>data[3]\<close> before it looks at the command byte, so the
  length check in the active-power branch is never reached with a short frame.
\<close>

lemma short_notification_index_error:
  "data \<noteq> [] \<Longrightarrow> length data < 4 \<Longrightarrow> handle_status_notification s data = (Inl IndexError, s)"
  by (auto simp add: handle_status_notification_def getitem_def split: sum.splits)

text \<open>
  Claim C1: a non-empty status notification shorter than four bytes is treated as a
  malformed frame, logged and dropped without raising, with the connection stage
  unchanged. The handler does not do so: on the three-byte active-power notification
  \<open>53 00 05\<close> it raises IndexError (the state, and so the stage, is untouched).
\<close>

theorem short_active_power_notification_raises:
  "handle_status_notification linked_device [0x53, 0x00, 0x05] = (Inl IndexError, linked_device)"
  by (simp add: handle_status_notification_def getitem_def)

section \<open>The sequence number\<close>

text \<open>
  Claim C2, as stated, fails: the sequence number is said to be unchanged by a successful
  pulses-only write, but on a connected device whose writes succeed a pulses-only command
  moves it from 1 to 2.
\<close>

theorem pulses_only_write_advances_sequence_number:
  "fst (send_command always_ok linked_device None (Some zero_pulses)) = Inr True
   \<and> sequence_number linked_device = 1
   \<and> sequence_number (snd (send_command always_ok linked_device None (Some zero_pulses))) = 2"
  by code_simp

text \<open>
  Claim C2, amended: \<open>send_command\<close> advances the sequence number by one mod 16 exactly
  when it returns True, that is when the device is connected, the command carries
  strengths or pulses, the frame can be built and one of the three write attempts
  succeeds (whether or not strengths are carried); in every other case the sequence
  number is unchanged; a sequence number in 0..15 stays in 0..15.
\<close>

theorem sequence_number_advances_on_every_successful_write:
  "sequence_number (snd (send_command lnk s st pulses)) =
     (if fst (send_command lnk s st pulses) = Inr True
      then (sequence_number s + 1) mod 16 else sequence_number s)
   \<and> (0 \<le> sequence_number s \<and> sequence_number s \<le> 15 \<longrightarrow>
        0 \<le> sequence_number (snd (send_command lnk s st pulses))
        \<and> sequence_number (snd (send_command lnk s st pulses)) \<le> 15)
   \<and> ((fst (send_command lnk s st pulses) = Inr True) =
        (client_connected s \<and> (st \<noteq> None \<or> pulses \<noteq> None)
         \<and> (\<exists>command. build_command (sequence_number s) st pulses = Inr command)
         \<and> (\<exists>i<3. lnk (tx_count s + i))))"
proof -
  have a: "sequence_number (snd (send_command lnk s st pulses)) =
     (if fst (send_command lnk s st pulses) = Inr True
      then (sequence_number s + 1) mod 16 else sequence_number s)"
    using send_command_sequence_number[of lnk s st pulses] by (simp add: SEQUENCE_MODULO_def)
  have b: "0 \<le> sequence_number s \<and> sequence_number s \<le> 15 \<longrightarrow>
        0 \<le> sequence_number (snd (send_command lnk s st pulses))
        \<and> sequence_number (snd (send_command lnk s st pulses)) \<le> 15"
    unfolding a by auto
  show ?thesis using a b send_command_result[of lnk s st pulses] by blast
qed

theorem sequence_number_advances_witness:
  "(0 \<le> sequence_number linked_device \<and> sequence_number linked_device \<le> 15)
   \<and> fst (send_command always_ok linked_device None (Some zero_pulses)) = Inr True
   \<and> sequence_number (snd (send_command always_ok linked_device None (Some zero_pulses))) = 2
   \<and> sequence_number (snd (send_command always_ok linked_device None (Some zero_pulses))) \<le> 15"
proof -
  have h: "0 \<le> sequence_number linked_device \<and> sequence_number linked_device \<le> 15"
    by code_simp
  have r: "fst (send_command always_ok linked_device None (Some zero_pulses)) = Inr True"
    by code_simp
  have one: "sequence_number linked_device = 1" by code_simp
  note t = sequence_number_advances_on_every_successful_write
             [of always_ok linked_device None "Some zero_pulses"]
  from t r one
  have "sequence_number (snd (send_command always_ok linked_device None (Some zero_pulses))) = 2"
    by simp
  moreover from t h
  have "sequence_number (snd (send_command always_ok linked_device None (Some zero_pulses))) \<le> 15"
    by blast
  ultimately show ?thesis using h r by blast
qed

section \<open>The control byte\<close>

text \<open>
  Claim C3: with strengths present the upper nibble of the control byte is the current
  sequence number and is nonzero. The counter wraps to 0: fifteen successful writes
  take the initial value 1 to 0, and the next command that carries strengths is written
  with the control byte \<open>0F\<close>, whose upper nibble is 0, the value that requests no
  acknowledgement.
\<close>

theorem strengths_command_with_wrapped_sequence_number:
  "sequence_number
     (((\<lambda>s. snd (send_command always_ok s None (Some zero_pulses))) ^^ 15) linked_device) = 0
   \<and> control_byte 0 (Some \<lparr>channel_a = 10, channel_b = 20\<rparr>) = 0x0F
   \<and> drop_bit 4 (control_byte 0 (Some \<lparr>channel_a = 10, channel_b = 20\<rparr>)) = 0
   \<and> send_command always_ok (linked_device\<lparr>sequence_number := 0\<rparr>)
        (Some \<lparr>channel_a = 10, channel_b = 20\<rparr>) None
      = (Inr True,
         linked_device\<lparr>sequence_number := 1, logged_first_send_payload := True, tx_count := 1,
           trace := [GattWrite [0xB0, 0x0F, 10, 20, 0,0,0,0, 0,0,0,0, 0,0,0,0, 0,0,0,0] True]\<rparr>)"
proof -
  have c: "client_connected linked_device" by code_simp
  have q: "sequence_number linked_device = 1" by code_simp
  have "sequence_number
          (((\<lambda>s. snd (send_command always_ok s None (Some zero_pulses))) ^^ 15) linked_device) = 0"
    using repeated_sends_sequence_number[of linked_device 15] c q by simp
  moreover have "control_byte 0 (Some \<lparr>channel_a = 10, channel_b = 20\<rparr>) = 0x0F"
    by (simp add: control_byte_some)
  moreover have "drop_bit 4 (control_byte 0 (Some \<lparr>channel_a = 10, channel_b = 20\<rparr>)) = 0"
    by (simp add: control_byte_upper_nibble)
  moreover have "send_command always_ok (linked_device\<lparr>sequence_number := 0\<rparr>)
        (Some \<lparr>channel_a = 10, channel_b = 20\<rparr>) None
      = (Inr True,
         linked_device\<lparr>sequence_number := 1, logged_first_send_payload := True, tx_count := 1,
           trace := [GattWrite [0xB0, 0x0F, 10, 20, 0,0,0,0, 0,0,0,0, 0,0,0,0, 0,0,0,0] True]\<rparr>)"
    by code_simp
  ultimately show ?thesis by blast
qed


section \<open>Pulse validation and frame layout\<close>

text \<open>
  Claim C4: when any pulse of the packet has an intensity outside 0..100, the pulse
  section of the frame is replaced by the zero pad of the same size, while the strength
  bytes and the strengths state are unaffected; valid pulses are laid out as channel-A
  durations, channel-A intensities, channel-B durations, channel-B intensities. On a
  connected device (where a frame is built) every write attempt of the call carries the
  header followed by the pad, respectively by that layout; the stored strengths are what
  the same call without pulses leaves; the pad has the size of a full packet's section.
\<close>

theorem invalid_pulses_become_zero_pad:
  "(client_connected s \<and> 0 \<le> sequence_number s \<and> sequence_number s < 16 \<and> byte_strengths st \<longrightarrow>
      (has_invalid_intensity p \<longrightarrow>
         (\<exists>outs. outs \<noteq> [] \<and>
            trace (snd (send_command lnk s st (Some p))) =
              trace s @ PulseSent p
                # map (GattWrite (header (sequence_number s) st @ replicate B0_NO_PULSES_PAD_BYTES 0)) outs))
      \<and> (\<not> has_invalid_intensity p \<and> byte_durations p \<longrightarrow>
         (\<exists>outs. outs \<noteq> [] \<and>
            trace (snd (send_command lnk s st (Some p))) =
              trace s @ PulseSent p
                # map (GattWrite (header (sequence_number s) st @ pulse_section p)) outs))
      \<and> strengths (snd (send_command lnk s st (Some p))) = strengths s)
   \<and> strengths (snd (send_command lnk s st (Some p))) = strengths (snd (send_command lnk s st None))
   \<and> (length (pulses_channel_a p) = PULSES_PER_PACKET \<and> length (pulses_channel_b p) = PULSES_PER_PACKET
        \<longrightarrow> length (pulse_section p) = B0_NO_PULSES_PAD_BYTES)"
proof -
  have pad: "\<exists>outs. outs \<noteq> [] \<and>
             trace (snd (send_command lnk s st (Some p))) =
               trace s @ PulseSent p
                 # map (GattWrite (header (sequence_number s) st @ replicate B0_NO_PULSES_PAD_BYTES 0)) outs"
    if "client_connected s" "0 \<le> sequence_number s" "sequence_number s < 16" "byte_strengths st"
       "has_invalid_intensity p"
  proof -
    have "build_command (sequence_number s) st (Some p) =
            Inr (header (sequence_number s) st @ replicate B0_NO_PULSES_PAD_BYTES 0)"
      using that(5) build_command_invalid[of p "sequence_number s" st] build_command_pad[OF that(2-4)]
      by (simp add: has_invalid_intensity_def)
    then show ?thesis by (rule send_command_writes[OF that(1)])
  qed
  have layout: "\<exists>outs. outs \<noteq> [] \<and>
             trace (snd (send_command lnk s st (Some p))) =
               trace s @ PulseSent p
                 # map (GattWrite (header (sequence_number s) st @ pulse_section p)) outs"
    if "client_connected s" "0 \<le> sequence_number s" "sequence_number s < 16" "byte_strengths st"
       "\<not> has_invalid_intensity p" "byte_durations p"
  proof -
    have "build_command (sequence_number s) st (Some p) =
            Inr (header (sequence_number s) st @ pulse_section p)"
      using that(5,6) build_command_valid[OF that(2-4), of p]
      by (simp add: has_invalid_intensity_def byte_durations_def pulse_section_def)
    then show ?thesis by (rule send_command_writes[OF that(1)])
  qed
  have same: "strengths (snd (send_command lnk s st (Some p))) = strengths (snd (send_command lnk s st None))"
    by (cases "client_connected s")
       (simp_all add: send_command_strengths_connected send_command_strengths_offline)
  have size: "length (pulse_section p) = B0_NO_PULSES_PAD_BYTES"
    if "length (pulses_channel_a p) = PULSES_PER_PACKET" "length (pulses_channel_b p) = PULSES_PER_PACKET"
    using that by (simp add: pulse_section_def PULSES_PER_PACKET_def B0_NO_PULSES_PAD_BYTES_def)
  show ?thesis
    using pad layout same size send_command_strengths_connected[of s lnk st "Some p"] by blast
qed

theorem invalid_pulses_zero_pad_witness:
  "client_connected linked_device \<and> 0 \<le> sequence_number linked_device
   \<and> sequence_number linked_device < 16
   \<and> byte_strengths (Some \<lparr>channel_a = 10, channel_b = 20\<rparr>)
   \<and> has_invalid_intensity invalid_packet
   \<and> (\<exists>outs. outs \<noteq> [] \<and>
        trace (snd (send_command always_ok linked_device (Some \<lparr>channel_a = 10, channel_b = 20\<rparr>)
                     (Some invalid_packet))) =
          trace linked_device @ PulseSent invalid_packet
            # map (GattWrite (header (sequence_number linked_device) (Some \<lparr>channel_a = 10, channel_b = 20\<rparr>)
                              @ replicate B0_NO_PULSES_PAD_BYTES 0)) outs)
   \<and> header (sequence_number linked_device) (Some \<lparr>channel_a = 10, channel_b = 20\<rparr>) = [0xB0, 0x1F, 10, 20]
   \<and> \<not> has_invalid_intensity valid_packet \<and> byte_durations valid_packet
   \<and> (\<exists>outs. outs \<noteq> [] \<and>
        trace (snd (send_command always_ok linked_device (Some \<lparr>channel_a = 10, channel_b = 20\<rparr>)
                     (Some valid_packet))) =
          trace linked_device @ PulseSent valid_packet
            # map (GattWrite (header (sequence_number linked_device) (Some \<lparr>channel_a = 10, channel_b = 20\<rparr>)
                              @ pulse_section valid_packet)) outs)
   \<and> pulse_section valid_packet = [10, 11, 12, 13, 50, 60, 70, 80, 20, 21, 22, 23, 30, 31, 32, 33]"
proof -
  have h: "client_connected linked_device \<and> 0 \<le> sequence_number linked_device
     \<and> sequence_number linked_device < 16
     \<and> byte_strengths (Some \<lparr>channel_a = 10, channel_b = 20\<rparr>)"
    by code_simp
  have i: "has_invalid_intensity invalid_packet" by code_simp
  have v: "\<not> has_invalid_intensity valid_packet \<and> byte_durations valid_packet" by code_simp
  have e: "header (sequence_number linked_device) (Some \<lparr>channel_a = 10, channel_b = 20\<rparr>) = [0xB0, 0x1F, 10, 20]"
    by code_simp
  have l: "pulse_section valid_packet = [10, 11, 12, 13, 50, 60, 70, 80, 20, 21, 22, 23, 30, 31, 32, 33]"
    by code_simp
  note t1 = invalid_pulses_become_zero_pad
      [of linked_device "Some \<lparr>channel_a = 10, channel_b = 20\<rparr>" invalid_packet always_ok]
  note t2 = invalid_pulses_become_zero_pad
      [of linked_device "Some \<lparr>channel_a = 10, channel_b = 20\<rparr>" valid_packet always_ok]
  from t1 h i have a: "\<exists>outs. outs \<noteq> [] \<and>
        trace (snd (send_command always_ok linked_device (Some \<lparr>channel_a = 10, channel_b = 20\<rparr>)
                     (Some invalid_packet))) =
          trace linked_device @ PulseSent invalid_packet
            # map (GattWrite (header (sequence_number linked_device) (Some \<lparr>channel_a = 10, channel_b = 20\<rparr>)
                              @ replicate B0_NO_PULSES_PAD_BYTES 0)) outs"
    by blast
  from t2 h v have b: "\<exists>outs. outs \<noteq> [] \<and>
        trace (snd (send_command always_ok linked_device (Some \<lparr>channel_a = 10, channel_b = 20\<rparr>)
                     (Some valid_packet))) =
          trace linked_device @ PulseSent valid_packet
            # map (GattWrite (header (sequence_number linked_device) (Some \<lparr>channel_a = 10, channel_b = 20\<rparr>)
                              @ pulse_section valid_packet)) outs"
    by blast
  show ?thesis using h i v e l a b by blast
qed

section \<open>The pulse-sent notification\<close>

text \<open>
  Claim C10: whenever a pulses packet is supplied, \<open>send_command\<close> emits the pulse-sent
  signal first: it is the first event the call adds, whatever happens afterwards
  (disconnected device, pulses discarded as invalid, frame not buildable, write failing).
  On a disconnected device it is the only event and the call returns False.
\<close>

theorem send_command_emits_pulse_sent_first:
  "(\<exists>rest. trace (snd (send_command lnk s st (Some p))) = trace s @ PulseSent p # rest)
   \<and> (\<not> client_connected s \<longrightarrow>
        fst (send_command lnk s st (Some p)) = Inr False
        \<and> trace (snd (send_command lnk s st (Some p))) = trace s @ [PulseSent p])"
proof -
  let ?s1 = "emit (PulseSent p) s"
  have off: "fst (send_command lnk s st (Some p)) = Inr False
        \<and> trace (snd (send_command lnk s st (Some p))) = trace s @ [PulseSent p]"
    if "\<not> client_connected s"
    using that by (simp add: send_command_def Let_def emit_def client_connected_def split: option.splits)
  have first: "\<exists>rest. trace (snd (send_command lnk s st (Some p))) = trace s @ PulseSent p # rest"
  proof (cases "client_connected s")
    case False
    then show ?thesis using off by simp
  next
    case True
    then have c: "client_connected ?s1" by (simp add: client_connected_def emit_def)
    show ?thesis
    proof (cases "build_command (sequence_number ?s1) st (Some p)")
      case (Inl e)
      with c show ?thesis by (simp add: send_command_def Let_def emit_def)
    next
      case (Inr command)
      then have "build_command (sequence_number s) st (Some p) = Inr command"
        by (simp add: emit_def)
      from send_command_writes[OF True this, of lnk] show ?thesis by blast
    qed
  qed
  show ?thesis using off first by blast
qed

theorem send_command_emits_pulse_sent_witness:
  "\<not> client_connected idle_device
   \<and> (\<exists>rest. trace (snd (send_command never_ok idle_device None (Some invalid_packet))) =
         trace idle_device @ PulseSent invalid_packet # rest)
   \<and> fst (send_command never_ok idle_device None (Some invalid_packet)) = Inr False
   \<and> trace (snd (send_command never_ok idle_device None (Some invalid_packet))) =
         trace idle_device @ [PulseSent invalid_packet]"
proof -
  have h: "\<not> client_connected idle_device" by code_simp
  from send_command_emits_pulse_sent_first[of never_ok idle_device None invalid_packet] h
  show ?thesis by blast
qed

section \<open>The strengths invariant\<close>

lemma handle_status_notification_strengths:
  "strengths (snd (handle_status_notification s data)) =
     (if 4 \<le> length data \<and> uint (data ! 0) = CMD_POWER_UPDATE
      then \<lparr>channel_a = uint (data ! 2), channel_b = uint (data ! 3)\<rparr>
      else strengths s)"
  by (auto simp add: handle_status_notification_def getitem_def emit_def Let_def split: sum.splits)

text \<open>
  Claim C7, as stated, fails: the invariant that both strengths lie in 0..200 is said to
  be preserved by the power-update overwrite and by the optimistic write. A power-update
  notification \<open>B1 00 FF 00\<close> stores 255 for channel A, and an offline command with
  strength 250 stores 250.
\<close>

theorem strengths_overwritten_out_of_range:
  "strengths_in_range (strengths linked_device)
   \<and> fst (handle_status_notification linked_device [0xB1, 0x00, 0xFF, 0x00]) = Inr ()
   \<and> strengths (snd (handle_status_notification linked_device [0xB1, 0x00, 0xFF, 0x00]))
        = \<lparr>channel_a = 255, channel_b = 0\<rparr>
   \<and> \<not> strengths_in_range (strengths (snd (handle_status_notification linked_device [0xB1, 0x00, 0xFF, 0x00])))
   \<and> strengths_in_range (strengths idle_device)
   \<and> \<not> strengths_in_range (strengths (snd (send_command never_ok idle_device (Some \<lparr>channel_a = 250, channel_b = 0\<rparr>) None)))"
  by code_simp

text \<open>
  Claim C7, amended: both operations store the supplied values as they are, without
  clamping or validation. The optimistic write of a disconnected \<open>send_command\<close> stores
  the supplied strengths, and a power-update notification of at least four bytes stores
  its bytes 2 and 3. Hence \<open>send_command\<close> preserves the invariant when the supplied
  strengths are within 0..200, and the notification handler preserves it when bytes 2
  and 3 of a power update are at most 200.
\<close>

theorem strengths_stored_verbatim:
  "(\<not> client_connected s \<longrightarrow> strengths (snd (send_command lnk s (Some x) pulses)) = x)
   \<and> (4 \<le> length data \<and> uint (data ! 0) = CMD_POWER_UPDATE \<longrightarrow>
        strengths (snd (handle_status_notification s data)) =
          \<lparr>channel_a = uint (data ! 2), channel_b = uint (data ! 3)\<rparr>)
   \<and> (strengths_in_range (strengths s) \<and> (case st of Some y \<Rightarrow> strengths_in_range y | None \<Rightarrow> True) \<longrightarrow>
        strengths_in_range (strengths (snd (send_command lnk s st pulses))))
   \<and> (strengths_in_range (strengths s)
        \<and> (4 \<le> length data \<and> uint (data ! 0) = CMD_POWER_UPDATE \<longrightarrow>
             uint (data ! 2) \<le> 200 \<and> uint (data ! 3) \<le> 200) \<longrightarrow>
        strengths_in_range (strengths (snd (handle_status_notification s data))))"
proof -
  have a: "strengths (snd (send_command lnk s (Some x) pulses)) = x" if "\<not> client_connected s"
    using that by (simp add: send_command_strengths_offline)
  have b: "strengths_in_range (strengths (snd (send_command lnk s st pulses)))"
    if "strengths_in_range (strengths s)" "case st of Some y \<Rightarrow> strengths_in_range y | None \<Rightarrow> True"
    using that
    by (cases "client_connected s")
       (simp_all add: send_command_strengths_connected send_command_strengths_offline split: option.splits)
  have c: "strengths_in_range (strengths (snd (handle_status_notification s data)))"
    if "strengths_in_range (strengths s)"
       "4 \<le> length data \<and> uint (data ! 0) = CMD_POWER_UPDATE \<longrightarrow>
             uint (data ! 2) \<le> 200 \<and> uint (data ! 3) \<le> 200"
    using that by (simp add: handle_status_notification_strengths strengths_in_range_def)
  have d: "strengths (snd (handle_status_notification s data)) =
          \<lparr>channel_a = uint (data ! 2), channel_b = uint (data ! 3)\<rparr>"
    if "4 \<le> length data \<and> uint (data ! 0) = CMD_POWER_UPDATE"
    using that by (simp add: handle_status_notification_strengths)
  show ?thesis using a b c d by blast
qed

theorem strengths_stored_verbatim_witness:
  "\<not> client_connected idle_device
   \<and> strengths (snd (send_command never_ok idle_device (Some \<lparr>channel_a = 120, channel_b = 80\<rparr>) None))
       = \<lparr>channel_a = 120, channel_b = 80\<rparr>
   \<and> 4 \<le> length [0xB1, 0x02, 0x64, 0x32 :: 8 word] \<and> uint ([0xB1, 0x02, 0x64, 0x32 :: 8 word] ! 0) = CMD_POWER_UPDATE
   \<and> strengths (snd (handle_status_notification linked_device [0xB1, 0x02, 0x64, 0x32]))
       = \<lparr>channel_a = uint ([0xB1, 0x02, 0x64, 0x32 :: 8 word] ! 2),
          channel_b = uint ([0xB1, 0x02, 0x64, 0x32 :: 8 word] ! 3)\<rparr>
   \<and> strengths_in_range (strengths linked_device)
   \<and> uint ([0xB1, 0x02, 0x64, 0x32 :: 8 word] ! 2) \<le> 200 \<and> uint ([0xB1, 0x02, 0x64, 0x32 :: 8 word] ! 3) \<le> 200
   \<and> strengths_in_range (strengths (snd (handle_status_notification linked_device [0xB1, 0x02, 0x64, 0x32])))"
proof -
  have h1: "\<not> client_connected idle_device" by code_simp
  have h2: "4 \<le> length [0xB1, 0x02, 0x64, 0x32 :: 8 word] \<and> uint ([0xB1, 0x02, 0x64, 0x32 :: 8 word] ! 0) = CMD_POWER_UPDATE"
    by (simp add: CMD_POWER_UPDATE_def)
  have h3: "strengths_in_range (strengths linked_device)" by code_simp
  have h4: "uint ([0xB1, 0x02, 0x64, 0x32 :: 8 word] ! 2) \<le> 200 \<and> uint ([0xB1, 0x02, 0x64, 0x32 :: 8 word] ! 3) \<le> 200"
    by simp
  note t1 = strengths_stored_verbatim[of idle_device never_ok "\<lparr>channel_a = 120, channel_b = 80\<rparr>" None
     "[0xB1, 0x02, 0x64, 0x32]" None]
  note t2 = strengths_stored_verbatim[of linked_device never_ok "\<lparr>channel_a = 120, channel_b = 80\<rparr>" None
     "[0xB1, 0x02, 0x64, 0x32]" None]
  from t1 h1 have a: "strengths (snd (send_command never_ok idle_device (Some \<lparr>channel_a = 120, channel_b = 80\<rparr>) None))
       = \<lparr>channel_a = 120, channel_b = 80\<rparr>" by blast
  from t2 h2 have b: "strengths (snd (handle_status_notification linked_device [0xB1, 0x02, 0x64, 0x32]))
       = \<lparr>channel_a = uint ([0xB1, 0x02, 0x64, 0x32 :: 8 word] ! 2),
          channel_b = uint ([0xB1, 0x02, 0x64, 0x32 :: 8 word] ! 3)\<rparr>" by blast
  from t2 h3 h4 have c: "strengths_in_range (strengths (snd (handle_status_notification linked_device [0xB1, 0x02, 0x64, 0x32])))"
    by blast
  show ?thesis using h1 h2 h3 h4 a b c by blast
qed

section \<open>The pulse generator scenario\<close>

lemma create_pulse_fields:
  "duration (fst (create_pulse g t i n)) = py_int (base_duration_ms (snd (create_pulse g t i n)))
   \<and> frequency (fst (create_pulse g t i n)) =
        max 1 (py_round (float_div 1000 (base_duration_ms (snd (create_pulse g t i n)))))"
  by (simp add: create_pulse_def Let_def)

lemma create_pulse_base_duration:
  "base_duration_ms (snd (create_pulse g t i n)) =
     clamp (float_div 1000 (max 1
        (if (case channel_pulse_frequency g of Some (WriteProtectedAxis f) \<Rightarrow> True | _ \<Rightarrow> False)
         then float_add (minimum_frequency g)
                (float_mul
                   (float_div (case channel_pulse_frequency g of
                                 Some ax \<Rightarrow> interpolate ax t
                               | None \<Rightarrow> interpolate (params_pulse_frequency g) t) 100)
                   (float_sub (maximum_frequency g) (minimum_frequency g)))
         else clamp (case channel_pulse_frequency g of
                       Some ax \<Rightarrow> interpolate ax t
                     | None \<Rightarrow> interpolate (params_pulse_frequency g) t)
                (minimum_frequency g) (maximum_frequency g))))
       (of_int MIN_PULSE_DURATION_MS) (of_int MAX_PULSE_DURATION_MS)"
  by (simp add: create_pulse_def Let_def)

text \<open>
  The doubles of the scenario: the target frequency is 55, the base duration is the
  double nearest to 1000/55, that is 5117726849284655 / 2^48 = 18.181818181818183, and
  1000 divided by it is the double just below 55.
\<close>

lemma scenario_base_duration:
  "clamp (float_div 1000 (max 1 (float_add 10 (float_mul (float_div 50 100) (float_sub 100 10)))))
     (of_int MIN_PULSE_DURATION_MS) (of_int MAX_PULSE_DURATION_MS)
   = 5117726849284655 / 281474976710656"
  by code_simp

lemma scenario_rounding:
  "py_int (5117726849284655 / 281474976710656) = 18
   \<and> py_round (5117726849284655 / 281474976710656) = 18
   \<and> max 1 (py_round (float_div 1000 (5117726849284655 / 281474976710656))) = 55"
  by code_simp

text \<open>
  The rounding of the divisions is observable: with the window 5..50 Hz the target
  frequency is 27.5, and the display frequency is the rounding of 27.499999999999996,
  not of 27.5.
\<close>

lemma create_pulse_low_window:
  "frequency (fst (create_pulse low_window_generator 0 60 0)) = 27
   \<and> duration (fst (create_pulse low_window_generator 0 60 0)) = 36"
  by code_simp

text \<open>
  Claim C5, as stated, fails: with the window 10..100 Hz and the normalized control value
  50 the pulse is said to have display frequency 56 Hz. The display frequency is the
  rounding of 1000 divided by the base duration 18.18 ms, not by the pulse's duration
  18 ms: it is 55 Hz.
\<close>

theorem create_pulse_scenario_frequency_is_55:
  "fst (create_pulse funscript_generator 0 60 0) = \<lparr>frequency = 55, intensity = 60, duration = 18\<rparr>
   \<and> frequency (fst (create_pulse funscript_generator 0 60 0)) \<noteq> 56"
  by code_simp

text \<open>
  Claim C5, amended: with minimum frequency 10 Hz, maximum frequency 100 Hz and a
  normalized control value of 50, a single \<open>create_pulse\<close> call produces a pulse with
  duration 18 ms and display frequency 55 Hz, where the duration is the rounding of the
  base duration of that call.
\<close>

theorem create_pulse_scenario:
  "channel_pulse_frequency g = Some (WriteProtectedAxis f) \<and> f t = 50
     \<and> minimum_frequency g = 10 \<and> maximum_frequency g = 100 \<longrightarrow>
   duration (fst (create_pulse g t i n)) = 18
   \<and> frequency (fst (create_pulse g t i n)) = 55
   \<and> duration (fst (create_pulse g t i n)) = py_round (base_duration_ms (snd (create_pulse g t i n)))"
proof -
  note ab = create_pulse_fields[of g t i n]
  have c: "duration (fst (create_pulse g t i n)) = 18
        \<and> frequency (fst (create_pulse g t i n)) = 55
        \<and> duration (fst (create_pulse g t i n)) = py_round (base_duration_ms (snd (create_pulse g t i n)))"
    if h: "channel_pulse_frequency g = Some (WriteProtectedAxis f)" "f t = 50"
       "minimum_frequency g = 10" "maximum_frequency g = 100"
  proof -
    have b: "base_duration_ms (snd (create_pulse g t i n)) = 5117726849284655 / 281474976710656"
      unfolding create_pulse_base_duration
      by (simp only: h option.case axis.case if_True axis.sel scenario_base_duration)
    show ?thesis using ab scenario_rounding unfolding b by simp
  qed
  show ?thesis using c by blast
qed

theorem create_pulse_scenario_witness:
  "channel_pulse_frequency funscript_generator = Some (WriteProtectedAxis (\<lambda>t. 50))
   \<and> minimum_frequency funscript_generator = 10 \<and> maximum_frequency funscript_generator = 100
   \<and> duration (fst (create_pulse funscript_generator 0 60 0)) = 18
   \<and> frequency (fst (create_pulse funscript_generator 0 60 0)) = 55
   \<and> duration (fst (create_pulse funscript_generator 0 60 0))
       = py_round (base_duration_ms (snd (create_pulse funscript_generator 0 60 0)))"
proof -
  have h: "channel_pulse_frequency funscript_generator = Some (WriteProtectedAxis (\<lambda>t. 50))
     \<and> (\<lambda>t::rat. 50::rat) 0 = 50
     \<and> minimum_frequency funscript_generator = 10 \<and> maximum_frequency funscript_generator = 100"
    by (simp add: funscript_generator_def)
  from create_pulse_scenario[of funscript_generator "\<lambda>t. 50" 0 60 0] h
  show ?thesis by blast
qed

section \<open>What each operation changes\<close>

text \<open>
  Each operation is characterised by the fields it may change; everything else, and the
  persisted-address writes recorded in the trace, is left as it was.
\<close>

lemma settings_writes_append: "settings_writes (xs @ ys) = settings_writes xs @ settings_writes ys"
  by (induction xs rule: settings_writes.induct) simp_all

lemma settings_writes_gatt: "settings_writes (map (GattWrite c) outs) = []"
  by (induction outs) simp_all

lemma write_retry_shape:
  "\<exists>q k tr. snd (write_retry lnk n c s) = s\<lparr>sequence_number := q, tx_count := k, trace := trace s @ tr\<rparr>
      \<and> settings_writes tr = []"
proof (induction n arbitrary: s)
  case 0
  have "snd (write_retry lnk 0 c s) = s\<lparr>sequence_number := sequence_number s, tx_count := tx_count s, trace := trace s @ []\<rparr>"
    by simp
  then show ?case by (metis settings_writes.simps(1))
next
  case (Suc n)
  let ?s1 = "emit (GattWrite c (lnk (tx_count s))) (s\<lparr>tx_count := Suc (tx_count s)\<rparr>)"
  show ?case
  proof (cases "lnk (tx_count s)")
    case True
    then have "snd (write_retry lnk (Suc n) c s) =
       s\<lparr>sequence_number := (sequence_number s + 1) mod SEQUENCE_MODULO, tx_count := Suc (tx_count s),
         trace := trace s @ [GattWrite c True]\<rparr>"
      by (simp add: Let_def emit_def)
    moreover have "settings_writes [GattWrite c True] = []" by simp
    ultimately show ?thesis by blast
  next
    case False
    from Suc[of ?s1] obtain q k tr where
      o: "snd (write_retry lnk n c ?s1) = ?s1\<lparr>sequence_number := q, tx_count := k, trace := trace ?s1 @ tr\<rparr>"
         "settings_writes tr = []" by blast
    from False o(1) have "snd (write_retry lnk (Suc n) c s) =
       s\<lparr>sequence_number := q, tx_count := k, trace := trace s @ (GattWrite c False # tr)\<rparr>"
      by (simp add: Let_def emit_def)
    moreover have "settings_writes (GattWrite c False # tr) = []" using o(2) by simp
    ultimately show ?thesis by blast
  qed
qed

lemma send_command_shape:
  "\<exists>x q l k tr. snd (send_command lnk s st pulses) =
       s\<lparr>strengths := x, sequence_number := q, logged_first_send_payload := l, tx_count := k,
         trace := trace s @ tr\<rparr>
      \<and> settings_writes tr = []"
proof -
  define s1 where "s1 = (case pulses of Some p \<Rightarrow> emit (PulseSent p) s | None \<Rightarrow> s)"
  have s1: "\<exists>tr. s1 = s\<lparr>trace := trace s @ tr\<rparr> \<and> settings_writes tr = []"
  proof (cases pulses)
    case None
    then have "s1 = s\<lparr>trace := trace s @ []\<rparr>" by (simp add: s1_def)
    then show ?thesis by (metis settings_writes.simps(1))
  next
    case (Some p)
    then have "s1 = s\<lparr>trace := trace s @ [PulseSent p]\<rparr>" by (simp add: s1_def emit_def)
    moreover have "settings_writes [PulseSent p] = []" by simp
    ultimately show ?thesis by blast
  qed
  then obtain tr1 where t1: "s1 = s\<lparr>trace := trace s @ tr1\<rparr>" "settings_writes tr1 = []" by blast
  have base: "s1 = s\<lparr>strengths := strengths s, sequence_number := sequence_number s,
        logged_first_send_payload := logged_first_send_payload s, tx_count := tx_count s,
        trace := trace s @ tr1\<rparr>"
    using t1(1) by simp
  show ?thesis
  proof (cases "client_connected s1")
    case False
    show ?thesis
    proof (cases st)
      case None
      with False have "snd (send_command lnk s st pulses) = s1"
        by (simp add: send_command_def Let_def s1_def)
      with base t1(2) show ?thesis by metis
    next
      case (Some x)
      with False have "snd (send_command lnk s st pulses) =
          s1\<lparr>strengths := (strengths s1)\<lparr>channel_a := channel_a x, channel_b := channel_b x\<rparr>\<rparr>"
        by (simp add: send_command_def Let_def s1_def)
      then have "snd (send_command lnk s st pulses) =
         s\<lparr>strengths := (strengths s)\<lparr>channel_a := channel_a x, channel_b := channel_b x\<rparr>,
           sequence_number := sequence_number s,
           logged_first_send_payload := logged_first_send_payload s, tx_count := tx_count s,
           trace := trace s @ tr1\<rparr>"
        using t1(1) by simp
      with t1(2) show ?thesis by metis
    qed
  next
    case True
    show ?thesis
    proof (cases "st = None \<and> pulses = None")
      case True
      with \<open>client_connected s1\<close> have "snd (send_command lnk s st pulses) = s1"
        by (simp add: send_command_def Let_def s1_def)
      with base t1(2) show ?thesis by metis
    next
      case False
      show ?thesis
      proof (cases "build_command (sequence_number s1) st pulses")
        case (Inl e)
        with False \<open>client_connected s1\<close> have "snd (send_command lnk s st pulses) = s1"
          by (simp add: send_command_def Let_def s1_def)
        with base t1(2) show ?thesis by metis
      next
        case (Inr command)
        obtain q k tr where
          o: "snd (write_retry lnk 3 command (s1\<lparr>logged_first_send_payload := True\<rparr>)) =
                (s1\<lparr>logged_first_send_payload := True\<rparr>)\<lparr>sequence_number := q, tx_count := k,
                   trace := trace (s1\<lparr>logged_first_send_payload := True\<rparr>) @ tr\<rparr>"
             "settings_writes tr = []"
          using write_retry_shape by blast
        from Inr False \<open>client_connected s1\<close>
        have "snd (send_command lnk s st pulses) =
                snd (write_retry lnk 3 command (s1\<lparr>logged_first_send_payload := True\<rparr>))"
          by (auto simp add: send_command_def Let_def s1_def case_prod_beta)
        with o(1) t1(1) have "snd (send_command lnk s st pulses) =
           s\<lparr>strengths := strengths s, sequence_number := q, logged_first_send_payload := True,
             tx_count := k, trace := trace s @ (tr1 @ tr)\<rparr>"
          by simp
        moreover have "settings_writes (tr1 @ tr) = []"
          using o(2) t1(2) by (simp add: settings_writes_append)
        ultimately show ?thesis by blast
      qed
    qed
  qed
qed


lemma disconnect_client_shape:
  "\<exists>r x q l k tr. disconnect_client lnk s =
       s\<lparr>client := None, running := r, strengths := x, sequence_number := q,
         logged_first_send_payload := l, tx_count := k, trace := trace s @ tr\<rparr>
      \<and> settings_writes tr = [] \<and> (r \<longrightarrow> running s \<and> client s = None)"
proof (cases "client s")
  case None
  then have "disconnect_client lnk s =
       s\<lparr>client := None, running := running s, strengths := strengths s,
         sequence_number := sequence_number s,
         logged_first_send_payload := logged_first_send_payload s, tx_count := tx_count s,
         trace := trace s @ []\<rparr>"
    by (simp add: disconnect_client_def)
  moreover have "settings_writes [] = []" by simp
  ultimately show ?thesis using None by blast
next
  case (Some c)
  obtain x q l k tr where
    o: "snd (send_command lnk (s\<lparr>running := False\<rparr>) None (Some zero_pulses)) =
          (s\<lparr>running := False\<rparr>)\<lparr>strengths := x, sequence_number := q,
             logged_first_send_payload := l, tx_count := k,
             trace := trace (s\<lparr>running := False\<rparr>) @ tr\<rparr>"
       "settings_writes tr = []"
    using send_command_shape by blast
  from Some o(1) have "disconnect_client lnk s =
       s\<lparr>client := None, running := False, strengths := x, sequence_number := q,
         logged_first_send_payload := l, tx_count := k, trace := trace s @ (tr @ [ClientDisconnect])\<rparr>"
    by (simp add: disconnect_client_def Let_def emit_def)
  moreover have "settings_writes (tr @ [ClientDisconnect]) = []"
    using o(2) by (simp add: settings_writes_append)
  ultimately show ?thesis by blast
qed

lemma recover_shape:
  "\<exists>r x q l k tr t. recover_from_transient_failure w d s =
       s\<lparr>client := None, running := r, connection_stage := SCANNING, strengths := x,
         sequence_number := q, next_scan_time := t, scan_attempt_counter := 0,
         logged_first_send_payload := l, tx_count := k, trace := trace s @ tr\<rparr>
      \<and> settings_writes tr = [] \<and> (r \<longrightarrow> running s \<and> client s = None)
      \<and> t = (if is_win w \<and> d > 0
               then (if backoff_scan_ok w then next_scan_time s
                     else now w + min 5 (1 + of_int d * 1))
               else now w + 1)"
proof -
  obtain r x q l k tr where
    o: "disconnect_client (link w) s =
       s\<lparr>client := None, running := r, strengths := x, sequence_number := q,
         logged_first_send_payload := l, tx_count := k, trace := trace s @ tr\<rparr>"
       "settings_writes tr = []" "r \<longrightarrow> running s \<and> client s = None"
    using disconnect_client_shape by blast
  let ?t = "if is_win w \<and> d > 0
               then (if backoff_scan_ok w then next_scan_time s
                     else now w + min 5 (1 + of_int d * 1))
               else now w + 1"
  have "recover_from_transient_failure w d s =
       s\<lparr>client := None, running := r, connection_stage := SCANNING, strengths := x,
         sequence_number := q, next_scan_time := ?t, scan_attempt_counter := 0,
         logged_first_send_payload := l, tx_count := k, trace := trace s @ tr\<rparr>"
    by (simp add: recover_from_transient_failure_def Let_def o(1))
  with o(2,3) show ?thesis by blast
qed

lemma write_parameters_shape:
  "\<exists>k tr. snd (write_parameters lnk n c s) = s\<lparr>tx_count := k, trace := trace s @ tr\<rparr>
      \<and> settings_writes tr = []"
proof (induction n arbitrary: s)
  case 0
  have "snd (write_parameters lnk 0 c s) = s\<lparr>tx_count := tx_count s, trace := trace s @ []\<rparr>"
    by simp
  then show ?case by (metis settings_writes.simps(1))
next
  case (Suc n)
  let ?s1 = "emit (GattWrite c (lnk (tx_count s))) (s\<lparr>tx_count := Suc (tx_count s)\<rparr>)"
  show ?case
  proof (cases "lnk (tx_count s)")
    case True
    then have "snd (write_parameters lnk (Suc n) c s) =
       s\<lparr>tx_count := Suc (tx_count s), trace := trace s @ [GattWrite c True]\<rparr>"
      by (simp add: Let_def emit_def)
    moreover have "settings_writes [GattWrite c True] = []" by simp
    ultimately show ?thesis by blast
  next
    case False
    from Suc[of ?s1] obtain k tr where
      o: "snd (write_parameters lnk n c ?s1) = ?s1\<lparr>tx_count := k, trace := trace ?s1 @ tr\<rparr>"
         "settings_writes tr = []" by blast
    from False o(1) have "snd (write_parameters lnk (Suc n) c s) =
       s\<lparr>tx_count := k, trace := trace s @ (GattWrite c False # tr)\<rparr>"
      by (simp add: Let_def emit_def)
    moreover have "settings_writes (GattWrite c False # tr) = []" using o(2) by simp
    ultimately show ?thesis by blast
  qed
qed

lemma send_parameters_shape:
  "\<exists>k tr. snd (send_parameters lnk s) = s\<lparr>tx_count := k, trace := trace s @ tr\<rparr>
      \<and> settings_writes tr = []"
proof -
  have same: "\<exists>k tr. s = s\<lparr>tx_count := k, trace := trace s @ tr\<rparr> \<and> settings_writes tr = []"
  proof -
    have "s = s\<lparr>tx_count := tx_count s, trace := trace s @ []\<rparr>" by simp
    then show ?thesis by (metis settings_writes.simps(1))
  qed
  show ?thesis
  proof (cases "client_connected s")
    case False
    then have "snd (send_parameters lnk s) = s" by (simp add: send_parameters_def)
    with same show ?thesis by simp
  next
    case True
    show ?thesis
    proof (cases "bytearray [0xBF,
                           channel_a_limit (parameters s), channel_b_limit (parameters s),
                           channel_a_freq_balance (parameters s), channel_b_freq_balance (parameters s),
                           channel_a_intensity_balance (parameters s),
                           channel_b_intensity_balance (parameters s)]")
      case (Inl e)
      with True have "snd (send_parameters lnk s) = s" by (simp add: send_parameters_def)
      with same show ?thesis by simp
    next
      case (Inr command)
      with True have "snd (send_parameters lnk s) = snd (write_parameters lnk 3 command s)"
        by (simp add: send_parameters_def case_prod_beta)
      with write_parameters_shape[of lnk 3 command s] show ?thesis by simp
    qed
  qed
qed

lemma read_battery_level_shape:
  "\<exists>b tr. read_battery_level w s = s\<lparr>battery_level := b, trace := trace s @ tr\<rparr>
      \<and> settings_writes tr = []"
proof -
  have same: "\<exists>b tr. s = s\<lparr>battery_level := b, trace := trace s @ tr\<rparr> \<and> settings_writes tr = []"
  proof -
    have "s = s\<lparr>battery_level := battery_level s, trace := trace s @ []\<rparr>" by simp
    then show ?thesis by (metis settings_writes.simps(1))
  qed
  show ?thesis
  proof (cases "client_connected s \<and> (\<exists>data. battery_data w = Some data \<and> data \<noteq> [])")
    case False
    then have "read_battery_level w s = s"
      by (auto simp add: read_battery_level_def split: option.splits)
    with same show ?thesis by simp
  next
    case True
    then obtain data where d: "battery_data w = Some data" "data \<noteq> []" by blast
    with True have "read_battery_level w s =
        s\<lparr>battery_level := uint (hd data), trace := trace s @ [BatteryLevelChanged (uint (hd data))]\<rparr>"
      by (simp add: read_battery_level_def emit_def)
    moreover have "settings_writes [BatteryLevelChanged (uint (hd data))] = []" by simp
    ultimately show ?thesis by blast
  qed
qed

lemma running_after_send_parameters: "running (snd (send_parameters lnk s)) = running s"
proof -
  obtain k tr where "snd (send_parameters lnk s) = s\<lparr>tx_count := k, trace := trace s @ tr\<rparr>"
    using send_parameters_shape by blast
  then show ?thesis by simp
qed

lemma stage_after_send_parameters:
  "connection_stage (snd (send_parameters lnk s)) = connection_stage s"
proof -
  obtain k tr where "snd (send_parameters lnk s) = s\<lparr>tx_count := k, trace := trace s @ tr\<rparr>"
    using send_parameters_shape by blast
  then show ?thesis by simp
qed

lemma running_after_read_battery_level: "running (read_battery_level w s) = running s"
proof -
  obtain b tr where "read_battery_level w s = s\<lparr>battery_level := b, trace := trace s @ tr\<rparr>"
    using read_battery_level_shape by blast
  then show ?thesis by simp
qed

lemma stage_after_read_battery_level:
  "connection_stage (read_battery_level w s) = connection_stage s"
proof -
  obtain b tr where "read_battery_level w s = s\<lparr>battery_level := b, trace := trace s @ tr\<rparr>"
    using read_battery_level_shape by blast
  then show ?thesis by simp
qed

lemma running_after_disconnect_client:
  "running (disconnect_client lnk s) \<longrightarrow> running s \<and> client s = None"
proof -
  obtain r x q l k tr where
    "disconnect_client lnk s =
       s\<lparr>client := None, running := r, strengths := x, sequence_number := q,
         logged_first_send_payload := l, tx_count := k, trace := trace s @ tr\<rparr>"
    "r \<longrightarrow> running s \<and> client s = None"
    using disconnect_client_shape by blast
  then show ?thesis by simp
qed

lemma running_after_recover:
  "running (recover_from_transient_failure w d s) \<longrightarrow> running s \<and> client s = None"
proof -
  obtain r x q l k tr t where
    "recover_from_transient_failure w d s =
       s\<lparr>client := None, running := r, connection_stage := SCANNING, strengths := x,
         sequence_number := q, next_scan_time := t, scan_attempt_counter := 0,
         logged_first_send_payload := l, tx_count := k, trace := trace s @ tr\<rparr>"
    "r \<longrightarrow> running s \<and> client s = None"
    using recover_shape by blast
  then show ?thesis by simp
qed

lemma running_after_remember: "running (remember_device_address a s) = running s"
  by (simp add: remember_device_address_def emit_def)

lemma running_after_finish: "running (snd (finish w b s)) = running s"
  by (simp add: finish_def)

lemma outcome_state_simps [simp]:
  "outcome_state (Inr s) = s" "outcome_state (Inl (b, s)) = s"
  by (simp_all add: outcome_state_def)

lemma running_after_bind_fresh: "running (outcome_state (bind_fresh w dev s)) = running s"
  by (simp add: bind_fresh_def Let_def finish_def remember_device_address_def emit_def
        split: option.splits)

lemma running_after_try_cached: "running (outcome_state (try_cached w a s)) = running s"
  by (simp add: try_cached_def finish_def split: option.splits)

lemma running_after_try_deferred: "running (outcome_state (try_deferred w a s)) = running s"
  by (simp add: try_deferred_def finish_def split: option.splits)

lemma running_after_filter_scan: "running (outcome_state (filter_scan w s)) = running s"
  by (simp add: filter_scan_def running_after_bind_fresh split: option.splits prod.splits)

lemma running_after_discover_scan: "running (outcome_state (discover_scan w s)) = running s"
  by (simp add: discover_scan_def running_after_bind_fresh split: option.splits)

lemma running_after_name_scan: "running (outcome_state (name_scan w s)) = running s"
  by (simp add: name_scan_def running_after_bind_fresh split: option.splits)

lemma running_after_refresh_scan: "running (outcome_state (refresh_scan w s)) = running s"
  by (simp add: refresh_scan_def running_after_bind_fresh split: option.splits prod.splits)

lemma then_phase_running:
  assumes "running (outcome_state r) = running s"
    and "\<And>s'. running s' = running s \<Longrightarrow> running (snd (k s')) = running s"
  shows "running (snd (case r of Inl x \<Rightarrow> x | Inr s' \<Rightarrow> k s')) = running s"
  using assms by (cases r) (auto simp: outcome_state_def)

lemma running_after_scan_for_device: "running (snd (scan_for_device w s)) = running s"
proof -
  define s1 where "s1 = (if \<not> (truthy (last_device_address s) \<and> skip_cached_reconnect_scans s \<le> 0)
                     \<and> truthy (last_device_address s) \<and> skip_cached_reconnect_scans s > 0
                then s\<lparr>skip_cached_reconnect_scans := skip_cached_reconnect_scans s - 1\<rparr>
                else s)"
  have r1: "running s1 = running s" by (simp add: s1_def)
  have p1: "running (outcome_state (case last_device_address s of
                 Some a \<Rightarrow> if c then try_cached w a s1 else Inr s1
               | None \<Rightarrow> Inr s1)) = running s" for c
    using r1 by (simp add: running_after_try_cached split: option.splits)
  have p5: "running (outcome_state (if c then refresh_scan w s' else Inr s')) = running s'" for c s'
    by (simp add: running_after_refresh_scan)
  have p6: "running (outcome_state (case d of Some a \<Rightarrow> try_deferred w a s' | None \<Rightarrow> Inr s')) = running s'" for d s'
    by (simp add: running_after_try_deferred split: option.splits)
  show ?thesis
    unfolding scan_for_device_def Let_def s1_def[symmetric]
    apply (rule then_phase_running[OF p1])
    apply (rule then_phase_running)
     apply (simp add: running_after_filter_scan)
    apply (rule then_phase_running)
     apply (simp add: running_after_discover_scan)
    apply (rule then_phase_running)
     apply (simp add: running_after_name_scan)
    apply (rule then_phase_running)
     apply (simp add: p5)
    apply (rule then_phase_running)
     apply (simp add: p6)
    apply (simp add: running_after_finish)
    done
qed

lemma connect_failed_recovers:
  "\<exists>x d. connect_failed w s = recover_from_transient_failure w d x \<and> running x = running s"
  unfolding connect_failed_def Let_def
  by (intro exI conjI, rule refl) (simp add: remember_device_address_def emit_def)

lemma running_after_connect_failed: "running (connect_failed w s) \<longrightarrow> running s"
  using connect_failed_recovers[of w s] running_after_recover by metis

lemma running_after_stage_scanning: "running (snd (stage_scanning w s)) = running s"
  using running_after_scan_for_device[of w s]
  by (cases "scan_for_device w s") (auto simp add: stage_scanning_def split: bool.splits)

lemma running_after_stage_connecting: "running (snd (stage_connecting w s)) \<longrightarrow> running s"
  using running_after_connect_failed[of w s] running_after_recover[of w 0 s]
  by (simp add: stage_connecting_def split: option.splits connect_outcome.splits)

lemma running_after_stage_service_discovery:
  "running (snd (stage_service_discovery w s)) \<longrightarrow> running s"
proof -
  obtain r s1 where p: "send_initial_power_zero (link w) s = (r, s1)" by (cases "send_initial_power_zero (link w) s")
  then have "running s1 = running s"
    using send_command_running[of "link w" s "Some \<lparr>channel_a = 0, channel_b = 0\<rparr>" None]
    by (simp add: send_initial_power_zero_def)
  then show ?thesis
    using running_after_recover[of w 0 s] running_after_recover[of w 0 s1] p
    by (auto simp add: stage_service_discovery_def split: option.splits sum.splits bool.splits)
qed

lemma running_after_stage_status_subscribe:
  "running (snd (stage_status_subscribe w s)) \<longrightarrow> running s"
  using running_after_recover[of w 0 s] by (simp add: stage_status_subscribe_def)

lemma running_after_stage_sync_parameters:
  "running (snd (stage_sync_parameters w s)) \<longrightarrow> running s"
proof -
  obtain r s1 where p: "send_parameters (link w) s = (r, s1)" by (cases "send_parameters (link w) s")
  then have "running s1 = running s" using running_after_send_parameters[of "link w" s] by simp
  then show ?thesis
    using running_after_recover[of w 0 s1] p
    by (auto simp add: stage_sync_parameters_def running_after_read_battery_level
          split: sum.splits bool.splits)
qed

lemma running_after_stage_connected: "running (snd (stage_connected w s)) = running s"
proof -
  define s1 where "s1 = (if now w - last_battery_poll s \<ge> 10
                then (read_battery_level w s)\<lparr>last_battery_poll := now w\<rparr> else s)"
  have r1: "running s1 = running s" by (simp add: s1_def running_after_read_battery_level)
  obtain r s2 where p: "send_parameters (link w) s1 = (r, s2)" by (cases "send_parameters (link w) s1")
  then have "running s2 = running s1" using running_after_send_parameters[of "link w" s1] by simp
  with r1 p show ?thesis
    unfolding stage_connected_def Let_def s1_def[symmetric]
    by (auto split: sum.splits)
qed

lemma running_after_connection_loop_body:
  "running (fst (connection_loop_body w (s, prev))) \<longrightarrow> running s"
proof (cases "force_disconnect s")
  case True
  then show ?thesis
    using running_after_disconnect_client[of "link w" "s\<lparr>force_disconnect := False\<rparr>"]
    by (simp add: connection_loop_body_def)
next
  case nf: False
  show ?thesis
  proof (cases "connection_stage s = CONNECTED \<and> \<not> client_connected s")
    case True
    with nf show ?thesis
      using running_after_disconnect_client[of "link w" s]
      by (simp add: connection_loop_body_def)
  next
    case False
    define r where "r = (case connection_stage s of
                DISCONNECTED \<Rightarrow> (Proceed, s\<lparr>connection_stage := SCANNING\<rparr>)
              | SCANNING \<Rightarrow> stage_scanning w s
              | CONNECTING \<Rightarrow> stage_connecting w s
              | SERVICE_DISCOVERY \<Rightarrow> stage_service_discovery w s
              | STATUS_SUBSCRIBE \<Rightarrow> stage_status_subscribe w s
              | SYNC_PARAMETERS \<Rightarrow> stage_sync_parameters w s
              | CONNECTED \<Rightarrow> stage_connected w s)"
    have rr: "running (snd r) \<longrightarrow> running s"
      unfolding r_def
      using running_after_stage_scanning[of w s] running_after_stage_connecting[of w s]
        running_after_stage_service_discovery[of w s] running_after_stage_status_subscribe[of w s]
        running_after_stage_sync_parameters[of w s] running_after_stage_connected[of w s]
      by (cases "connection_stage s") simp_all
    have "fst (connection_loop_body w (s, prev)) =
        fst (case r of
          (Continue, s1) \<Rightarrow> (s1, prev)
        | (Raised e, s1) \<Rightarrow> (recover_from_transient_failure w 0 s1, prev)
        | (Proceed, s1) \<Rightarrow>
            if prev \<noteq> connection_stage s1
            then (emit (ConnectionStatusChanged (connection_stage s1 = CONNECTED) (connection_stage s1)) s1,
                  connection_stage s1)
            else (s1, prev))"
      using nf False unfolding r_def by (auto simp add: connection_loop_body_def)
    then show ?thesis
      using rr running_after_recover[of w 0 "snd r"]
      by (cases r; cases "fst r") (auto simp add: emit_def)
  qed
qed

lemma running_after_connection_loop:
  "running (fst (connection_loop ws x)) \<longrightarrow> running (fst x)"
proof (induction ws arbitrary: x)
  case Nil
  then show ?case by simp
next
  case (Cons w ws)
  obtain s prev where x: "x = (s, prev)" by (cases x)
  show ?case
    using Cons[of "connection_loop_body w x"] running_after_connection_loop_body[of w s prev]
    by (simp add: x)
qed

lemma update_loop_stopped: "\<not> running (snd x) \<Longrightarrow> update_loop ts x = Some (snd x)"
  by (cases ts) simp_all

section \<open>The running flag\<close>

text \<open>
  Claim C9: every internal link teardown performed with a live client, also the one made
  during recovery from a transient failure, sets the running flag to False, so the update
  loop halts and does not resume after an automatic reconnect until \<open>start_updates\<close> is
  called again. With a client present, \<open>_disconnect_client\<close>, the recovery and \<open>disconnect\<close>
  leave \<open>running\<close> False; no iteration of the connection loop sets it again; the update
  loop returns as soon as it finds it False; \<open>start_updates\<close> sets it.
\<close>

theorem teardown_stops_update_loop:
  "(client s \<noteq> None \<longrightarrow>
      \<not> running (disconnect_client lnk s)
      \<and> \<not> running (recover_from_transient_failure w d s)
      \<and> \<not> running (disconnect lnk s))
   \<and> (\<not> running s \<longrightarrow>
        \<not> running (fst (connection_loop ws (s, prev)))
        \<and> update_loop ts (last_battery_read, s) = Some s)
   \<and> running (start_updates alg s)"
proof -
  have "running (disconnect lnk s) \<longrightarrow> client s = None"
    using running_after_disconnect_client[of lnk "s\<lparr>shutdown := True\<rparr>"]
    by (simp add: disconnect_def)
  then show ?thesis
    using running_after_disconnect_client[of lnk s] running_after_recover[of w d s]
      running_after_connection_loop[of ws "(s, prev)"]
      update_loop_stopped[of "(last_battery_read, s)" ts]
    by (auto simp add: start_updates_def)
qed

theorem teardown_stops_update_loop_witness:
  "client running_device \<noteq> None \<and> running running_device
   \<and> \<not> running (disconnect_client never_ok running_device)
   \<and> \<not> running recovered_device
   \<and> connection_stage reconnected_device = CONNECTED
   \<and> client_connected reconnected_device
   \<and> \<not> running reconnected_device
   \<and> update_loop [due_tick] (0, reconnected_device) = Some reconnected_device"
proof -
  have h: "client running_device \<noteq> None \<and> running running_device" by code_simp
  have c: "connection_stage reconnected_device = CONNECTED \<and> client_connected reconnected_device"
    by code_simp
  note t1 = teardown_stops_update_loop[of running_device never_ok "quiet_world 100" 0 "[]" CONNECTED "[]" 0 None]
  from t1 h have a: "\<not> running (disconnect_client never_ok running_device) \<and> \<not> running recovered_device"
    unfolding recovered_device_def by blast
  note t2 = teardown_stops_update_loop[of recovered_device never_ok "quiet_world 100" 0
      "map found_world [102, 102, 102, 102, 102]" SCANNING "[]" 0 None]
  from t2 a have b: "\<not> running reconnected_device" unfolding reconnected_device_def by blast
  note t3 = teardown_stops_update_loop[of reconnected_device never_ok "quiet_world 100" 0
      "[]" CONNECTED "[due_tick]" 0 None]
  from t3 b have d: "update_loop [due_tick] (0, reconnected_device) = Some reconnected_device" by blast
  show ?thesis using h c a b d by blast
qed

section \<open>The cached address\<close>

lemma recover_cache_fields:
  "last_device_address (recover_from_transient_failure w d s) = last_device_address s
   \<and> cached_connect_failure_count (recover_from_transient_failure w d s) = cached_connect_failure_count s
   \<and> cached_connect_failure_limit (recover_from_transient_failure w d s) = cached_connect_failure_limit s
   \<and> persisted_address (recover_from_transient_failure w d s) = persisted_address s
   \<and> settings_writes (trace (recover_from_transient_failure w d s)) = settings_writes (trace s)"
proof -
  obtain r x q l k tr t where
    "recover_from_transient_failure w d s =
       s\<lparr>client := None, running := r, connection_stage := SCANNING, strengths := x,
         sequence_number := q, next_scan_time := t, scan_attempt_counter := 0,
         logged_first_send_payload := l, tx_count := k, trace := trace s @ tr\<rparr>"
    "settings_writes tr = []"
    using recover_shape by blast
  then show ?thesis by (simp add: settings_writes_append)
qed

lemma recover_scanning:
  "connection_stage (recover_from_transient_failure w d s) = SCANNING
   \<and> scan_attempt_counter (recover_from_transient_failure w d s) = 0
   \<and> client (recover_from_transient_failure w d s) = None
   \<and> first_active_power_seen (recover_from_transient_failure w d s) = first_active_power_seen s
   \<and> next_scan_time (recover_from_transient_failure w d s) =
        (if is_win w \<and> d > 0
         then (if backoff_scan_ok w then next_scan_time s else now w + min 5 (1 + of_int d))
         else now w + 1)"
proof -
  obtain r x q l k tr t where
    "recover_from_transient_failure w d s =
       s\<lparr>client := None, running := r, connection_stage := SCANNING, strengths := x,
         sequence_number := q, next_scan_time := t, scan_attempt_counter := 0,
         logged_first_send_payload := l, tx_count := k, trace := trace s @ tr\<rparr>"
    "t = (if is_win w \<and> d > 0
               then (if backoff_scan_ok w then next_scan_time s
                     else now w + min 5 (1 + of_int d * 1))
               else now w + 1)"
    using recover_shape by blast
  then show ?thesis by simp
qed

lemma connect_failed_scanning:
  "connection_stage (connect_failed w s) = SCANNING
   \<and> scan_attempt_counter (connect_failed w s) = 0
   \<and> client (connect_failed w s) = None"
  unfolding connect_failed_def Let_def using recover_scanning by blast

lemma connect_failed_cache:
  "cached_connect_failure_limit (connect_failed w s) = cached_connect_failure_limit s
   \<and> (on_cached_path s \<and> cached_connect_failure_count s + 1 \<ge> cached_connect_failure_limit s \<longrightarrow>
        last_device_address (connect_failed w s) = None
        \<and> cached_connect_failure_count (connect_failed w s) = 0
        \<and> persisted_address (connect_failed w s) = []
        \<and> settings_writes (trace (connect_failed w s)) = settings_writes (trace s) @ [[]])
   \<and> (on_cached_path s \<and> cached_connect_failure_count s + 1 < cached_connect_failure_limit s \<longrightarrow>
        last_device_address (connect_failed w s) = last_device_address s
        \<and> cached_connect_failure_count (connect_failed w s) = cached_connect_failure_count s + 1
        \<and> persisted_address (connect_failed w s) = persisted_address s
        \<and> settings_writes (trace (connect_failed w s)) = settings_writes (trace s))
   \<and> (\<not> on_cached_path s \<longrightarrow>
        last_device_address (connect_failed w s) = last_device_address s
        \<and> cached_connect_failure_count (connect_failed w s) = cached_connect_failure_count s
        \<and> persisted_address (connect_failed w s) = persisted_address s
        \<and> settings_writes (trace (connect_failed w s)) = settings_writes (trace s))"
  unfolding connect_failed_def Let_def
  by (simp add: recover_cache_fields on_cached_path_def remember_device_address_def emit_def
        settings_writes_append)

lemma body_connecting_failure:
  assumes "connecting_fails w s"
  shows "\<exists>tr. fst (connection_loop_body w (s, prev)) =
            (connect_failed w s)\<lparr>trace := trace (connect_failed w s) @ tr\<rparr>
          \<and> settings_writes tr = []"
proof -
  let ?x = "connect_failed w s"
  obtain c where c: "client s = Some c" using assms by (auto simp: connecting_fails_def)
  have st: "stage_connecting w s = (Proceed, ?x)"
    using assms c by (cases "connect_result w") (simp_all add: stage_connecting_def connecting_fails_def)
  have "fst (connection_loop_body w (s, prev)) =
          (if prev \<noteq> connection_stage ?x
           then emit (ConnectionStatusChanged (connection_stage ?x = CONNECTED) (connection_stage ?x)) ?x
           else ?x)"
    using assms st by (simp add: connection_loop_body_def connecting_fails_def)
  moreover have "?x = ?x\<lparr>trace := trace ?x @ []\<rparr>" by simp
  moreover have "emit e ?x = ?x\<lparr>trace := trace ?x @ [e]\<rparr>" for e by (simp add: emit_def)
  moreover have "settings_writes [ConnectionStatusChanged a b] = []" for a b by simp
  ultimately show ?thesis by (metis settings_writes.simps(1))
qed

lemma body_connecting_failure_cache:
  assumes "connecting_fails w s"
  shows "last_device_address (fst (connection_loop_body w (s, prev))) = last_device_address (connect_failed w s)
   \<and> cached_connect_failure_count (fst (connection_loop_body w (s, prev))) = cached_connect_failure_count (connect_failed w s)
   \<and> cached_connect_failure_limit (fst (connection_loop_body w (s, prev))) = cached_connect_failure_limit (connect_failed w s)
   \<and> persisted_address (fst (connection_loop_body w (s, prev))) = persisted_address (connect_failed w s)
   \<and> settings_writes (trace (fst (connection_loop_body w (s, prev)))) = settings_writes (trace (connect_failed w s))"
proof -
  obtain tr where "fst (connection_loop_body w (s, prev)) =
            (connect_failed w s)\<lparr>trace := trace (connect_failed w s) @ tr\<rparr>"
          "settings_writes tr = []"
    using body_connecting_failure[OF assms] by blast
  then show ?thesis by (simp add: settings_writes_append)
qed

text \<open>
  Claim C8: three consecutive connect failures on the cached address clear the persisted
  address exactly once, the cache-failure counter being reset with it, and later connect
  failures neither clear nor write the persisted address until a new match is persisted.
  For one failing connect attempt: on the cached path it counts the failure, and on
  reaching the limit it forgets the address, writes the empty setting once and resets the
  counter; off the cached path (in particular once the address is forgotten) it writes
  nothing and leaves address and counter alone. For three such failures in a row from a
  counter of 0 with the limit 3: exactly one write, the empty address, is added.
\<close>

theorem cached_address_cleared_once:
  "(connecting_fails w s \<longrightarrow>
      cached_connect_failure_limit (fst (connection_loop_body w (s, prev))) = cached_connect_failure_limit s
      \<and> (on_cached_path s \<and> cached_connect_failure_count s + 1 \<ge> cached_connect_failure_limit s \<longrightarrow>
           last_device_address (fst (connection_loop_body w (s, prev))) = None
           \<and> cached_connect_failure_count (fst (connection_loop_body w (s, prev))) = 0
           \<and> persisted_address (fst (connection_loop_body w (s, prev))) = []
           \<and> settings_writes (trace (fst (connection_loop_body w (s, prev)))) = settings_writes (trace s) @ [[]])
      \<and> (on_cached_path s \<and> cached_connect_failure_count s + 1 < cached_connect_failure_limit s \<longrightarrow>
           last_device_address (fst (connection_loop_body w (s, prev))) = last_device_address s
           \<and> cached_connect_failure_count (fst (connection_loop_body w (s, prev))) = cached_connect_failure_count s + 1
           \<and> persisted_address (fst (connection_loop_body w (s, prev))) = persisted_address s
           \<and> settings_writes (trace (fst (connection_loop_body w (s, prev)))) = settings_writes (trace s))
      \<and> (\<not> on_cached_path s \<longrightarrow>
           last_device_address (fst (connection_loop_body w (s, prev))) = last_device_address s
           \<and> cached_connect_failure_count (fst (connection_loop_body w (s, prev))) = cached_connect_failure_count s
           \<and> persisted_address (fst (connection_loop_body w (s, prev))) = persisted_address s
           \<and> settings_writes (trace (fst (connection_loop_body w (s, prev)))) = settings_writes (trace s)))
   \<and> (connecting_fails w1 s1 \<and> connecting_fails w2 s2 \<and> connecting_fails w3 s3
        \<and> on_cached_path s1 \<and> cached_connect_failure_count s1 = 0 \<and> cached_connect_failure_limit s1 = 3
        \<and> resumes_cached (fst (connection_loop_body w1 (s1, p1))) s2
        \<and> resumes_cached (fst (connection_loop_body w2 (s2, p2))) s3 \<longrightarrow>
        settings_writes (trace (fst (connection_loop_body w3 (s3, p3)))) = settings_writes (trace s1) @ [[]]
        \<and> last_device_address (fst (connection_loop_body w3 (s3, p3))) = None
        \<and> persisted_address (fst (connection_loop_body w3 (s3, p3))) = []
        \<and> cached_connect_failure_count (fst (connection_loop_body w3 (s3, p3))) = 0)"
proof -
  have one: "cached_connect_failure_limit (fst (connection_loop_body w (s, prev))) = cached_connect_failure_limit s
      \<and> (on_cached_path s \<and> cached_connect_failure_count s + 1 \<ge> cached_connect_failure_limit s \<longrightarrow>
           last_device_address (fst (connection_loop_body w (s, prev))) = None
           \<and> cached_connect_failure_count (fst (connection_loop_body w (s, prev))) = 0
           \<and> persisted_address (fst (connection_loop_body w (s, prev))) = []
           \<and> settings_writes (trace (fst (connection_loop_body w (s, prev)))) = settings_writes (trace s) @ [[]])
      \<and> (on_cached_path s \<and> cached_connect_failure_count s + 1 < cached_connect_failure_limit s \<longrightarrow>
           last_device_address (fst (connection_loop_body w (s, prev))) = last_device_address s
           \<and> cached_connect_failure_count (fst (connection_loop_body w (s, prev))) = cached_connect_failure_count s + 1
           \<and> persisted_address (fst (connection_loop_body w (s, prev))) = persisted_address s
           \<and> settings_writes (trace (fst (connection_loop_body w (s, prev)))) = settings_writes (trace s))
      \<and> (\<not> on_cached_path s \<longrightarrow>
           last_device_address (fst (connection_loop_body w (s, prev))) = last_device_address s
           \<and> cached_connect_failure_count (fst (connection_loop_body w (s, prev))) = cached_connect_failure_count s
           \<and> persisted_address (fst (connection_loop_body w (s, prev))) = persisted_address s
           \<and> settings_writes (trace (fst (connection_loop_body w (s, prev)))) = settings_writes (trace s))"
    if "connecting_fails w s" for w s prev
    using body_connecting_failure_cache[OF that, of prev] connect_failed_cache[of w s] by simp
  have three: "settings_writes (trace (fst (connection_loop_body w3 (s3, p3)))) = settings_writes (trace s1) @ [[]]
        \<and> last_device_address (fst (connection_loop_body w3 (s3, p3))) = None
        \<and> persisted_address (fst (connection_loop_body w3 (s3, p3))) = []
        \<and> cached_connect_failure_count (fst (connection_loop_body w3 (s3, p3))) = 0"
    if f: "connecting_fails w1 s1" "connecting_fails w2 s2" "connecting_fails w3 s3"
      and c: "on_cached_path s1" "cached_connect_failure_count s1 = 0" "cached_connect_failure_limit s1 = 3"
      and r: "resumes_cached (fst (connection_loop_body w1 (s1, p1))) s2"
             "resumes_cached (fst (connection_loop_body w2 (s2, p2))) s3"
  proof -
    let ?t1 = "fst (connection_loop_body w1 (s1, p1))"
    let ?t2 = "fst (connection_loop_body w2 (s2, p2))"
    have t1: "last_device_address ?t1 = last_device_address s1" "cached_connect_failure_count ?t1 = 1"
      "cached_connect_failure_limit ?t1 = 3" "settings_writes (trace ?t1) = settings_writes (trace s1)"
      using one[OF f(1), of p1] c by simp_all
    have s2: "on_cached_path s2" "cached_connect_failure_count s2 = 1" "cached_connect_failure_limit s2 = 3"
      "settings_writes (trace s2) = settings_writes (trace s1)" "last_device_address s2 = last_device_address s1"
      using r(1) t1 c(1) by (simp_all add: resumes_cached_def on_cached_path_def)
    have t2: "last_device_address ?t2 = last_device_address s1" "cached_connect_failure_count ?t2 = 2"
      "cached_connect_failure_limit ?t2 = 3" "settings_writes (trace ?t2) = settings_writes (trace s1)"
      using one[OF f(2), of p2] s2 by simp_all
    have s3: "on_cached_path s3" "cached_connect_failure_count s3 = 2" "cached_connect_failure_limit s3 = 3"
      "settings_writes (trace s3) = settings_writes (trace s1)"
      using r(2) t2 c(1) by (simp_all add: resumes_cached_def on_cached_path_def)
    show ?thesis using one[OF f(3), of p3] s3 by simp
  qed
  show ?thesis using one[of w s prev] three by blast
qed

theorem cached_address_cleared_once_witness:
  "connecting_fails (quiet_world 100) (fst (retry_state 2))
   \<and> connecting_fails (quiet_world 108) (fst (retry_state 6))
   \<and> connecting_fails (quiet_world 116) (fst (retry_state 10))
   \<and> on_cached_path (fst (retry_state 2))
   \<and> cached_connect_failure_count (fst (retry_state 2)) = 0
   \<and> cached_connect_failure_limit (fst (retry_state 2)) = 3
   \<and> resumes_cached (fst (connection_loop_body (quiet_world 100) (fst (retry_state 2), snd (retry_state 2))))
        (fst (retry_state 6))
   \<and> resumes_cached (fst (connection_loop_body (quiet_world 108) (fst (retry_state 6), snd (retry_state 6))))
        (fst (retry_state 10))
   \<and> settings_writes (trace (fst (connection_loop_body (quiet_world 116) (fst (retry_state 10), snd (retry_state 10)))))
        = settings_writes (trace (fst (retry_state 2))) @ [[]]
   \<and> last_device_address (fst (connection_loop_body (quiet_world 116) (fst (retry_state 10), snd (retry_state 10)))) = None
   \<and> persisted_address (fst (connection_loop_body (quiet_world 116) (fst (retry_state 10), snd (retry_state 10)))) = []
   \<and> cached_connect_failure_count (fst (connection_loop_body (quiet_world 116) (fst (retry_state 10), snd (retry_state 10)))) = 0"
proof -
  have h: "connecting_fails (quiet_world 100) (fst (retry_state 2))
   \<and> connecting_fails (quiet_world 108) (fst (retry_state 6))
   \<and> connecting_fails (quiet_world 116) (fst (retry_state 10))
   \<and> on_cached_path (fst (retry_state 2))
   \<and> cached_connect_failure_count (fst (retry_state 2)) = 0
   \<and> cached_connect_failure_limit (fst (retry_state 2)) = 3"
    by code_simp
  have r1: "resumes_cached (fst (connection_loop_body (quiet_world 100) (fst (retry_state 2), snd (retry_state 2))))
        (fst (retry_state 6))"
    by code_simp
  have r2: "resumes_cached (fst (connection_loop_body (quiet_world 108) (fst (retry_state 6), snd (retry_state 6))))
        (fst (retry_state 10))"
    by code_simp
  note t = cached_address_cleared_once[of "quiet_world 100" "fst (retry_state 2)" "snd (retry_state 2)"
      "quiet_world 100" "fst (retry_state 2)" "quiet_world 108" "fst (retry_state 6)"
      "quiet_world 116" "fst (retry_state 10)" "snd (retry_state 2)" "snd (retry_state 6)"
      "snd (retry_state 10)"]
  from t h r1 r2 show ?thesis by blast
qed

section \<open>Transitions back to SCANNING\<close>

lemma rescan_ready_recover: "rescan_ready (recover_from_transient_failure w d s)"
  using recover_scanning[of w d s] by (simp add: rescan_ready_def)

lemma rescan_ready_other: "connection_stage x \<noteq> SCANNING \<Longrightarrow> rescan_ready x"
  by (simp add: rescan_ready_def)

lemma rescan_ready_emit: "rescan_ready (emit e x) = rescan_ready x"
  by (simp add: rescan_ready_def emit_def)

lemma stage_after_send_command:
  "connection_stage (snd (send_command lnk s st pulses)) = connection_stage s"
proof -
  obtain x q l k tr where "snd (send_command lnk s st pulses) =
       s\<lparr>strengths := x, sequence_number := q, logged_first_send_payload := l, tx_count := k,
         trace := trace s @ tr\<rparr>"
    using send_command_shape by blast
  then show ?thesis by simp
qed

lemma rescan_ready_stage_connecting:
  "(\<forall>e. fst (stage_connecting w s) \<noteq> Raised e) \<and> rescan_ready (snd (stage_connecting w s))"
  using rescan_ready_recover[of w 0 s] connect_failed_scanning[of w s]
  by (simp add: stage_connecting_def rescan_ready_def split: option.splits connect_outcome.splits)

lemma rescan_ready_stage_service_discovery:
  "(\<forall>e. fst (stage_service_discovery w s) \<noteq> Raised e)
   \<and> rescan_ready (snd (stage_service_discovery w s))"
proof -
  obtain r s1 where p: "send_initial_power_zero (link w) s = (r, s1)"
    by (cases "send_initial_power_zero (link w) s")
  show ?thesis
    using rescan_ready_recover[of w 0 s] rescan_ready_recover[of w 0 s1] p
    by (auto simp add: stage_service_discovery_def rescan_ready_other
          split: option.splits sum.splits bool.splits)
qed

lemma rescan_ready_stage_status_subscribe:
  "(\<forall>e. fst (stage_status_subscribe w s) \<noteq> Raised e)
   \<and> rescan_ready (snd (stage_status_subscribe w s))"
  using rescan_ready_recover[of w 0 s]
  by (simp add: stage_status_subscribe_def rescan_ready_other)

lemma rescan_ready_stage_sync_parameters:
  "(\<forall>e. fst (stage_sync_parameters w s) \<noteq> Raised e)
     \<longrightarrow> rescan_ready (snd (stage_sync_parameters w s))"
proof -
  obtain r s1 where p: "send_parameters (link w) s = (r, s1)" by (cases "send_parameters (link w) s")
  show ?thesis
    using rescan_ready_recover[of w 0 s1] p
    by (auto simp add: stage_sync_parameters_def rescan_ready_other split: sum.splits bool.splits)
qed

lemma rescan_ready_stage_connected:
  assumes "connection_stage s = CONNECTED"
  shows "(\<forall>e. fst (stage_connected w s) \<noteq> Raised e) \<longrightarrow> rescan_ready (snd (stage_connected w s))"
proof -
  define s1 where "s1 = (if now w - last_battery_poll s \<ge> 10
                then (read_battery_level w s)\<lparr>last_battery_poll := now w\<rparr> else s)"
  have r1: "connection_stage s1 = CONNECTED"
    using assms by (simp add: s1_def stage_after_read_battery_level)
  obtain r s2 where p: "send_parameters (link w) s1 = (r, s2)" by (cases "send_parameters (link w) s1")
  then have "connection_stage s2 = CONNECTED"
    using stage_after_send_parameters[of "link w" s1] r1 by simp
  with r1 p show ?thesis
    unfolding stage_connected_def Let_def s1_def[symmetric]
    by (auto simp add: rescan_ready_other split: sum.splits)
qed

lemma rescan_ready_body:
  assumes "\<not> force_disconnect s" "connection_stage s \<noteq> DISCONNECTED" "connection_stage s \<noteq> SCANNING"
  shows "rescan_ready (fst (connection_loop_body w (s, prev)))"
proof (cases "connection_stage s = CONNECTED \<and> \<not> client_connected s")
  case True
  with assms show ?thesis
    by (simp add: connection_loop_body_def rescan_ready_other)
next
  case False
  define r where "r = (case connection_stage s of
                DISCONNECTED \<Rightarrow> (Proceed, s\<lparr>connection_stage := SCANNING\<rparr>)
              | SCANNING \<Rightarrow> stage_scanning w s
              | CONNECTING \<Rightarrow> stage_connecting w s
              | SERVICE_DISCOVERY \<Rightarrow> stage_service_discovery w s
              | STATUS_SUBSCRIBE \<Rightarrow> stage_status_subscribe w s
              | SYNC_PARAMETERS \<Rightarrow> stage_sync_parameters w s
              | CONNECTED \<Rightarrow> stage_connected w s)"
  have rr: "(\<forall>e. fst r \<noteq> Raised e) \<longrightarrow> rescan_ready (snd r)"
    unfolding r_def
    using assms(2,3) rescan_ready_stage_connecting[of w s]
      rescan_ready_stage_service_discovery[of w s] rescan_ready_stage_status_subscribe[of w s]
      rescan_ready_stage_sync_parameters[of w s] rescan_ready_stage_connected[of s w]
    by (cases "connection_stage s") simp_all
  have "fst (connection_loop_body w (s, prev)) =
        fst (case r of
          (Continue, s1) \<Rightarrow> (s1, prev)
        | (Raised e, s1) \<Rightarrow> (recover_from_transient_failure w 0 s1, prev)
        | (Proceed, s1) \<Rightarrow>
            if prev \<noteq> connection_stage s1
            then (emit (ConnectionStatusChanged (connection_stage s1 = CONNECTED) (connection_stage s1)) s1,
                  connection_stage s1)
            else (s1, prev))"
    using assms(1) False unfolding r_def by (auto simp add: connection_loop_body_def)
  then show ?thesis
    using rr rescan_ready_recover[of w 0 "snd r"]
    by (cases r; cases "fst r") (auto simp add: rescan_ready_emit)
qed

lemma body_force_disconnect:
  assumes "force_disconnect s"
  shows "connection_stage (fst (connection_loop_body w (s, prev))) = DISCONNECTED
     \<and> \<not> first_active_power_seen (fst (connection_loop_body w (s, prev)))
     \<and> scan_attempt_counter (fst (connection_loop_body w (s, prev))) = 0
     \<and> next_scan_time (fst (connection_loop_body w (s, prev))) = 0"
  using assms by (simp add: connection_loop_body_def)

lemma body_link_dropped:
  assumes "\<not> force_disconnect s" "connection_stage s = CONNECTED" "\<not> client_connected s"
  shows "connection_stage (fst (connection_loop_body w (s, prev))) = DISCONNECTED
     \<and> \<not> first_active_power_seen (fst (connection_loop_body w (s, prev)))"
  using assms by (simp add: connection_loop_body_def)

text \<open>
  Claim C6, as stated, fails: every transition back to SCANNING is said to clear the
  first-active-power-seen flag and the scan retry counter and delay. A device in
  SYNC_PARAMETERS that has seen an active-power notification and whose parameter write
  fails returns to SCANNING with the flag still set and the next scan time at 101 s,
  one second after the failure.
\<close>

theorem active_power_flag_survives_recovery:
  "connection_stage syncing_device = SYNC_PARAMETERS
   \<and> first_active_power_seen syncing_device
   \<and> connection_stage (fst (connection_loop_body (quiet_world 100) (syncing_device, STATUS_SUBSCRIBE))) = SCANNING
   \<and> first_active_power_seen (fst (connection_loop_body (quiet_world 100) (syncing_device, STATUS_SUBSCRIBE)))
   \<and> next_scan_time (fst (connection_loop_body (quiet_world 100) (syncing_device, STATUS_SUBSCRIBE))) = 101"
  by code_simp

text \<open>
  Claim C6, amended: recovery from a transient failure returns to SCANNING with the scan
  retry counter reset to 0 and the next scan time set to a backoff deadline (one second
  ahead; on Windows after a connect failure it is left as it was when the active scan
  ran, and set to min(5, 1 + streak) seconds ahead when that scan failed), and every
  iteration that takes the loop from a later stage back to SCANNING leaves the counter at
  0 and no client. The first-active-power-seen flag is cleared, with counter and delay,
  by a forced disconnect, and it is cleared when a dropped link is detected in CONNECTED;
  both lead to DISCONNECTED.
\<close>

theorem recovery_resets_scan_counter:
  "connection_stage (recover_from_transient_failure w d s) = SCANNING
   \<and> scan_attempt_counter (recover_from_transient_failure w d s) = 0
   \<and> next_scan_time (recover_from_transient_failure w d s) =
        (if is_win w \<and> d > 0
         then (if backoff_scan_ok w then next_scan_time s else now w + min 5 (1 + of_int d))
         else now w + 1)
   \<and> (\<not> force_disconnect s \<and> connection_stage s \<noteq> DISCONNECTED \<and> connection_stage s \<noteq> SCANNING
        \<and> connection_stage (fst (connection_loop_body w (s, prev))) = SCANNING \<longrightarrow>
        scan_attempt_counter (fst (connection_loop_body w (s, prev))) = 0
        \<and> client (fst (connection_loop_body w (s, prev))) = None)
   \<and> (force_disconnect s \<longrightarrow>
        connection_stage (fst (connection_loop_body w (s, prev))) = DISCONNECTED
        \<and> \<not> first_active_power_seen (fst (connection_loop_body w (s, prev)))
        \<and> scan_attempt_counter (fst (connection_loop_body w (s, prev))) = 0
        \<and> next_scan_time (fst (connection_loop_body w (s, prev))) = 0)
   \<and> (\<not> force_disconnect s \<and> connection_stage s = CONNECTED \<and> \<not> client_connected s \<longrightarrow>
        connection_stage (fst (connection_loop_body w (s, prev))) = DISCONNECTED
        \<and> \<not> first_active_power_seen (fst (connection_loop_body w (s, prev))))"
proof -
  have a: "\<not> force_disconnect s \<and> connection_stage s \<noteq> DISCONNECTED \<and> connection_stage s \<noteq> SCANNING
        \<and> connection_stage (fst (connection_loop_body w (s, prev))) = SCANNING \<longrightarrow>
        scan_attempt_counter (fst (connection_loop_body w (s, prev))) = 0
        \<and> client (fst (connection_loop_body w (s, prev))) = None"
    using rescan_ready_body[of s w prev] by (simp add: rescan_ready_def)
  show ?thesis
    using a recover_scanning[of w d s] body_force_disconnect[of s w prev] body_link_dropped[of s w prev]
    by blast
qed

theorem recovery_resets_scan_counter_witness:
  "\<not> force_disconnect syncing_device \<and> connection_stage syncing_device \<noteq> DISCONNECTED
   \<and> connection_stage syncing_device \<noteq> SCANNING
   \<and> connection_stage (fst (connection_loop_body (quiet_world 100) (syncing_device, STATUS_SUBSCRIBE))) = SCANNING
   \<and> scan_attempt_counter (fst (connection_loop_body (quiet_world 100) (syncing_device, STATUS_SUBSCRIBE))) = 0
   \<and> client (fst (connection_loop_body (quiet_world 100) (syncing_device, STATUS_SUBSCRIBE))) = None
   \<and> connection_stage (recover_from_transient_failure (quiet_world 100) 0 syncing_device) = SCANNING
   \<and> next_scan_time (recover_from_transient_failure (quiet_world 100) 0 syncing_device) = 101
   \<and> force_disconnect (reset_connection linked_device)
   \<and> connection_stage (fst (connection_loop_body (quiet_world 100) (reset_connection linked_device, CONNECTED))) = DISCONNECTED
   \<and> \<not> first_active_power_seen (fst (connection_loop_body (quiet_world 100) (reset_connection linked_device, CONNECTED)))
   \<and> next_scan_time (fst (connection_loop_body (quiet_world 100) (reset_connection linked_device, CONNECTED))) = 0"
proof -
  have h: "\<not> force_disconnect syncing_device \<and> connection_stage syncing_device \<noteq> DISCONNECTED
     \<and> connection_stage syncing_device \<noteq> SCANNING
     \<and> connection_stage (fst (connection_loop_body (quiet_world 100) (syncing_device, STATUS_SUBSCRIBE))) = SCANNING"
    by code_simp
  have f: "force_disconnect (reset_connection linked_device)" by code_simp
  have q: "is_win (quiet_world 100) = False \<and> now (quiet_world 100) = 100"
    by (simp add: quiet_world_def)
  note t1 = recovery_resets_scan_counter[of "quiet_world 100" 0 syncing_device STATUS_SUBSCRIBE]
  note t2 = recovery_resets_scan_counter[of "quiet_world 100" 0 "reset_connection linked_device" CONNECTED]
  from t1 h have a: "scan_attempt_counter (fst (connection_loop_body (quiet_world 100) (syncing_device, STATUS_SUBSCRIBE))) = 0
   \<and> client (fst (connection_loop_body (quiet_world 100) (syncing_device, STATUS_SUBSCRIBE))) = None
   \<and> connection_stage (recover_from_transient_failure (quiet_world 100) 0 syncing_device) = SCANNING"
    by blast
  from t1 q have b: "next_scan_time (recover_from_transient_failure (quiet_world 100) 0 syncing_device) = 101"
    by simp
  from t2 f have c: "connection_stage (fst (connection_loop_body (quiet_world 100) (reset_connection linked_device, CONNECTED))) = DISCONNECTED
   \<and> \<not> first_active_power_seen (fst (connection_loop_body (quiet_world 100) (reset_connection linked_device, CONNECTED)))
   \<and> next_scan_time (fst (connection_loop_body (quiet_world 100) (reset_connection linked_device, CONNECTED))) = 0"
    by blast
  show ?thesis using h f a b c by blast
qed

end
